theory Spec2Isabelle
  imports Complex_Main "HOL-Library.Word" "HOL-Library.AList" "HOL-Library.Multiset"
begin

section \<open>Kibana stats: schema mapping and X-Pack monitoring events\<close>

text \<open>
  The development embeds \<^verbatim>\<open>metricbeat/module/kibana/stats/data_xpack.go\<close>: the
  schema literal \<^verbatim>\<open>schemaXPackMonitoring\<close> and the function
  \<^verbatim>\<open>eventMappingXPack\<close>. The schema engine (\<^verbatim>\<open>libbeat/common/schema\<close>),
  \<^verbatim>\<open>common.MapStr\<close> and the helpers of \<^verbatim>\<open>metricbeat/helper/elastic\<close> are used
  by that file but are not part of it; their models follow the specification and say so.
\<close>

subsection \<open>Dynamic values\<close>

text \<open>
  A decoded JSON number is a finite \<^verbatim>\<open>float64\<close>, that is, a dyadic rational; the model
  lets a number carry any real. \<^verbatim>\<open>int64\<close> is a 64-bit word read as two's complement.
\<close>

type_synonym float64 = real
type_synonym int64 = "64 word"
type_synonym byte = "8 word"

text \<open>
  What \<^verbatim>\<open>json.Unmarshal\<close> leaves in a \<^verbatim>\<open>map[string]interface{}\<close>: the six tags of the
  specification's Value. A document is a list of bindings that is only ever read by key
  (\<open>map_of\<close>), as a Go map is.
\<close>

datatype Value =
    Null
  | Bool bool
  | Number float64
  | String string
  | Document "(string \<times> Value) list"
  | Sequence "Value list"

type_synonym Doc = "(string \<times> Value) list"

text \<open>
  What the code stores in a \<^verbatim>\<open>common.MapStr\<close>: converted scalars, the
  \<^verbatim>\<open>time.Time\<close> of the capture, and nested \<^verbatim>\<open>MapStr\<close>s.
\<close>

datatype Field =
    FInt int64
  | FFloat float64
  | FString string
  | FBool bool
  | FTime nat
  | FMap "(string \<times> Field) list"

type_synonym MapStr = "(string \<times> Field) list"

subsection \<open>Dotted paths\<close>

text \<open>\<^verbatim>\<open>strings.Split(s, ".")\<close>: the empty string splits into one empty segment.\<close>

fun split_on :: "char \<Rightarrow> string \<Rightarrow> string list" where
  "split_on c [] = [[]]"
| "split_on c (x # xs) =
     (if x = c then [] # split_on c xs
      else (case split_on c xs of w # ws \<Rightarrow> (x # w) # ws | [] \<Rightarrow> [[x]]))"

definition splitPath :: "string \<Rightarrow> string list" where
  "splitPath p = split_on (CHR ''.'') p"

text \<open>
  Modelled from the spec: resolving a dotted source key against the input document
  (the lookup of \<^verbatim>\<open>libbeat/common\<close> is not in the source file). The key is followed
  segment by segment; it is absent when a segment is missing or when a segment before the
  last one does not hold a document.
\<close>

fun getValue :: "string list \<Rightarrow> Doc \<Rightarrow> Value option" where
  "getValue [] d = None"
| "getValue [k] d = map_of d k"
| "getValue (k # ks) d =
     (case map_of d k of Some (Document sub) \<Rightarrow> getValue ks sub | _ \<Rightarrow> None)"

definition resolve :: "string \<Rightarrow> Doc \<Rightarrow> Value option" where
  "resolve sourceKey d = getValue (splitPath sourceKey) d"

text \<open>
  Modelled from the spec: \<^verbatim>\<open>MapStr.Put\<close> of \<^verbatim>\<open>libbeat/common\<close>, a direct key write
  at a dotted path where the last write wins and missing intermediate sub-documents are
  synthesized. The specification does not say what happens when an intermediate segment
  already holds a scalar; there the write is refused and the document stays as it was
  (the caller in the source discards the result of \<^verbatim>\<open>Put\<close>).
\<close>

fun putPath :: "string list \<Rightarrow> Field \<Rightarrow> MapStr \<Rightarrow> MapStr" where
  "putPath [] v m = m"
| "putPath [k] v m = AList.update k v m"
| "putPath (k # ks) v m =
     (case map_of m k of
        None \<Rightarrow> AList.update k (FMap (putPath ks v [])) m
      | Some (FMap sub) \<Rightarrow> AList.update k (FMap (putPath ks v sub)) m
      | Some _ \<Rightarrow> m)"

definition Put :: "string \<Rightarrow> Field \<Rightarrow> MapStr \<Rightarrow> MapStr" where
  "Put key v m = putPath (splitPath key) v m"

text \<open>Reading a \<^verbatim>\<open>MapStr\<close> back at a dotted path, used to state what an event contains.\<close>

fun getField :: "string list \<Rightarrow> MapStr \<Rightarrow> Field option" where
  "getField [] m = None"
| "getField [k] m = map_of m k"
| "getField (k # ks) m =
     (case map_of m k of Some (FMap sub) \<Rightarrow> getField ks sub | _ \<Rightarrow> None)"

definition GetValue :: "string \<Rightarrow> MapStr \<Rightarrow> Field option" where
  "GetValue key m = getField (splitPath key) m"

subsection \<open>Conversion of a number to a 64-bit integer\<close>

text \<open>
  Go's conversion \<^verbatim>\<open>int64(f)\<close> of a \<^verbatim>\<open>float64\<close> discards the fraction. When the
  truncated value does not fit 64 bits the language leaves the result to the
  implementation; the model takes the value the amd64 instruction delivers there, the
  smallest \<^verbatim>\<open>int64\<close>.
\<close>

definition trunc :: "float64 \<Rightarrow> int" where
  "trunc f = (if f < 0 then \<lceil>f\<rceil> else \<lfloor>f\<rfloor>)"

definition fits_int64 :: "int \<Rightarrow> bool" where
  "fits_int64 i \<longleftrightarrow> - (2 ^ 63) \<le> i \<and> i < 2 ^ 63"

definition float64_to_int64 :: "float64 \<Rightarrow> int64" where
  "float64_to_int64 f =
     (if fits_int64 (trunc f) then word_of_int (trunc f)
      else word_of_int (- (2 ^ 63)))"

subsection \<open>Schemas\<close>

datatype Kind = KInt | KFloat | KString | KBool

text \<open>
  A schema lists the entries of a \<^verbatim>\<open>s.Schema{...}\<close> literal. The Go type is a map, so
  the listing is one of many for the same schema and its order means nothing by itself:
  the order in which a run visits the entries is given separately (\<open>reorder\<close> below).
  \<open>Leaf\<close> and \<open>Nested\<close> carry source key, target path, and the optional
  flag, as in the specification's data model. \<open>Object\<close> stands for \<^verbatim>\<open>s.Object{...}\<close>,
  which the source uses once (\<^verbatim>\<open>"xpack"\<close>); it has no source key.
\<close>

datatype SchemaNode =
    Leaf string string Kind bool
  | Nested string string "(string \<times> SchemaNode) list" bool
  | Object "(string \<times> SchemaNode) list"

type_synonym Schema = "(string \<times> SchemaNode) list"

text \<open>
  Ranging over a Go map visits its entries in an order the language leaves open and the
  runtime varies from one \<^verbatim>\<open>range\<close> to the next. A run's choice is a rank for every
  key of every map of the schema, the map being named by the path of field names that
  leads to it; the entries are visited by ascending rank. Every rank gives a permutation
  of the entries, and every permutation of a map with distinct keys comes from a rank
  (\<open>position\<close> below).
  \<open>reorder rk p schema\<close> is the listing of \<open>schema\<close>, at every depth, in the order
  in which the run \<open>rk\<close> visits it.
\<close>

type_synonym RangeOrder = "string list \<Rightarrow> string \<Rightarrow> nat"

fun reorderNode :: "RangeOrder \<Rightarrow> string list \<Rightarrow> SchemaNode \<Rightarrow> SchemaNode" where
  "reorderNode rk p (Leaf sourceKey targetPath kind optional) =
     Leaf sourceKey targetPath kind optional"
| "reorderNode rk p (Nested sourceKey targetPath child optional) =
     Nested sourceKey targetPath
       (sort_key (\<lambda>(n, node). rk p n)
          (map (\<lambda>(n, node). (n, reorderNode rk (p @ [n]) node)) child))
       optional"
| "reorderNode rk p (Object child) =
     Object
       (sort_key (\<lambda>(n, node). rk p n)
          (map (\<lambda>(n, node). (n, reorderNode rk (p @ [n]) node)) child))"

definition reorder :: "RangeOrder \<Rightarrow> string list \<Rightarrow> Schema \<Rightarrow> Schema" where
  "reorder rk p schema =
     sort_key (\<lambda>(n, node). rk p n)
       (map (\<lambda>(n, node). (n, reorderNode rk (p @ [n]) node)) schema)"

text \<open>
  The rank that visits a map in the order of a given listing of it: the position of the
  key in that listing.
\<close>

definition position :: "Schema \<Rightarrow> string \<Rightarrow> nat" where
  "position s n = length (takeWhile (\<lambda>e. fst e \<noteq> n) s)"

text \<open>
  The schemas the constructors below can build: no target paths, and field names that
  are distinct in every map, as the keys of a Go map are.
\<close>

fun plainNode :: "SchemaNode \<Rightarrow> bool" where
  "plainNode (Leaf sourceKey targetPath kind optional) = (targetPath = [])"
| "plainNode (Nested sourceKey targetPath child optional) =
     (targetPath = [] \<and> distinct (map fst child) \<and>
      list_all (\<lambda>(n, node). plainNode node) child)"
| "plainNode (Object child) =
     (distinct (map fst child) \<and> list_all (\<lambda>(n, node). plainNode node) child)"

definition plainSchema :: "Schema \<Rightarrow> bool" where
  "plainSchema schema =
     (distinct (map fst schema) \<and> list_all (\<lambda>(n, node). plainNode node) schema)"

datatype Cause = MissingField | TypeMismatch

datatype FieldError = FieldError string Cause

type_synonym MappingResult = "MapStr \<times> FieldError list"

text \<open>
  The constructors of \<^verbatim>\<open>libbeat/common/schema/mapstriface\<close> as the source calls them:
  a source key and options; none of them takes a target path, so the output key of such a
  node is the field name it is declared under.
\<close>

datatype SchemaOption = Optional

datatype DictSchemaOption = DictOptional

definition c_Int :: "string \<Rightarrow> SchemaOption list \<Rightarrow> SchemaNode" where
  "c_Int key opts = Leaf key [] KInt (Optional \<in> set opts)"

definition c_Float :: "string \<Rightarrow> SchemaOption list \<Rightarrow> SchemaNode" where
  "c_Float key opts = Leaf key [] KFloat (Optional \<in> set opts)"

definition c_Str :: "string \<Rightarrow> SchemaOption list \<Rightarrow> SchemaNode" where
  "c_Str key opts = Leaf key [] KString (Optional \<in> set opts)"

definition c_Bool :: "string \<Rightarrow> SchemaOption list \<Rightarrow> SchemaNode" where
  "c_Bool key opts = Leaf key [] KBool (Optional \<in> set opts)"

definition c_Dict :: "string \<Rightarrow> Schema \<Rightarrow> DictSchemaOption list \<Rightarrow> SchemaNode" where
  "c_Dict key schema opts = Nested key [] schema (DictOptional \<in> set opts)"

subsection \<open>Applying a schema\<close>

text \<open>
  Modelled from the spec: the leaf coercions of the Applier (\<^verbatim>\<open>libbeat/common/schema\<close>
  is not in the source file). \<open>Int\<close> and \<open>Float\<close> accept a number, \<open>String\<close> and
  \<open>Bool\<close> need the exact tag; everything else is a mismatch (\<open>None\<close>).
\<close>

fun coerce :: "Kind \<Rightarrow> Value \<Rightarrow> Field option" where
  "coerce KInt (Number f) = Some (FInt (float64_to_int64 f))"
| "coerce KFloat (Number f) = Some (FFloat f)"
| "coerce KString (String s) = Some (FString s)"
| "coerce KBool (Bool b) = Some (FBool b)"
| "coerce _ _ = None"

fun prefixError :: "string \<Rightarrow> FieldError \<Rightarrow> FieldError" where
  "prefixError p (FieldError path c) = FieldError (p @ ''.'' @ path) c"

definition target :: "string \<Rightarrow> string \<Rightarrow> string list" where
  "target fieldName targetPath =
     (if targetPath = [] then [fieldName] else splitPath targetPath)"

text \<open>
  Modelled from the spec: \<^verbatim>\<open>Schema.Apply\<close> (\<^verbatim>\<open>libbeat/common/schema\<close> is not in the
  source file). The entries of the listing it is given are visited in the order listed
  (for a Go map, the order of the run: the caller passes \<open>reorder rk [] schema\<close>). For
  each node the source key is resolved against the input:
  \<^item> absent and optional: nothing is written and nothing is reported;
  \<^item> absent and required: one \<open>MissingField\<close> is appended and the traversal goes on;
  \<^item> a leaf whose value coerces is written at the target path, or at the field name when
    the target path is empty; a value that does not coerce gives \<open>TypeMismatch\<close> and
    no output;
  \<^item> a nested node whose value is a document applies the child schema to it, writes the
    result under the target, and appends the child's errors prefixed with its own source
    key; a value that is not a document is a \<open>TypeMismatch\<close>.
  The specification has no node for \<^verbatim>\<open>s.Object\<close>: \<open>Object\<close> is taken as a nested
  node without a source key, which applies its child schema to the same input and writes
  the result under its field name.
\<close>

fun applyNode :: "string \<Rightarrow> SchemaNode \<Rightarrow> Doc \<Rightarrow> MappingResult \<Rightarrow> MappingResult"
  and applySchema :: "Schema \<Rightarrow> Doc \<Rightarrow> MappingResult \<Rightarrow> MappingResult"
where
  "applyNode fieldName (Leaf sourceKey targetPath kind optional) input (out, errs) =
     (case resolve sourceKey input of
        None \<Rightarrow>
          if optional then (out, errs)
          else (out, errs @ [FieldError sourceKey MissingField])
      | Some v \<Rightarrow>
          (case coerce kind v of
             None \<Rightarrow> (out, errs @ [FieldError sourceKey TypeMismatch])
           | Some w \<Rightarrow> (putPath (target fieldName targetPath) w out, errs)))"
| "applyNode fieldName (Nested sourceKey targetPath child optional) input (out, errs) =
     (case resolve sourceKey input of
        None \<Rightarrow>
          if optional then (out, errs)
          else (out, errs @ [FieldError sourceKey MissingField])
      | Some (Document sub) \<Rightarrow>
          (case applySchema child sub ([], []) of
             (subOut, subErrs) \<Rightarrow>
               (putPath (target fieldName targetPath) (FMap subOut) out,
                errs @ map (prefixError sourceKey) subErrs))
      | Some _ \<Rightarrow> (out, errs @ [FieldError sourceKey TypeMismatch]))"
| "applyNode fieldName (Object child) input (out, errs) =
     (case applySchema child input ([], []) of
        (subOut, subErrs) \<Rightarrow> (putPath [fieldName] (FMap subOut) out, errs @ subErrs))"
| "applySchema [] input acc = acc"
| "applySchema ((fieldName, node) # rest) input acc =
     applySchema rest input (applyNode fieldName node input acc)"

definition ApplyTo :: "Schema \<Rightarrow> Doc \<Rightarrow> MappingResult" where
  "ApplyTo schema input = applySchema schema input ([], [])"

text \<open>
  Where a node writes: the target path of a leaf or nested node (the field name when the
  target path is empty), the field name of an object. \<open>rootKeys\<close> lists the
  top-level output keys the entries of a schema can touch.
\<close>

fun nodeTarget :: "string \<Rightarrow> SchemaNode \<Rightarrow> string list" where
  "nodeTarget fieldName (Leaf sourceKey targetPath kind optional) = target fieldName targetPath"
| "nodeTarget fieldName (Nested sourceKey targetPath child optional) = target fieldName targetPath"
| "nodeTarget fieldName (Object child) = [fieldName]"

definition rootKeys :: "Schema \<Rightarrow> string list" where
  "rootKeys schema = map (\<lambda>(fieldName, node). hd (nodeTarget fieldName node)) schema"

text \<open>
  What one node reports and what it writes under its field name, whatever the output
  held before.
\<close>

definition nodeErrs :: "SchemaNode \<Rightarrow> Doc \<Rightarrow> FieldError list" where
  "nodeErrs node d = snd (applyNode [] node d ([], []))"

fun nodeOut :: "SchemaNode \<Rightarrow> Doc \<Rightarrow> Field option" where
  "nodeOut (Leaf sourceKey targetPath kind optional) d =
     (case resolve sourceKey d of None \<Rightarrow> None | Some v \<Rightarrow> coerce kind v)"
| "nodeOut (Nested sourceKey targetPath child optional) d =
     (case resolve sourceKey d of
        Some (Document sub) \<Rightarrow> Some (FMap (fst (applySchema child sub ([], []))))
      | _ \<Rightarrow> None)"
| "nodeOut (Object child) d = Some (FMap (fst (applySchema child d ([], []))))"

text \<open>
  Two decoded values that are the same Go value: equal scalars, sequences equal element
  by element, and documents that bind the same keys to equivalent values, in whatever
  order the bindings are listed (a Go map has no order).
\<close>

fun value_equiv :: "Value \<Rightarrow> Value \<Rightarrow> bool" where
  "value_equiv Null Null = True"
| "value_equiv (Bool a) (Bool b) = (a = b)"
| "value_equiv (Number a) (Number b) = (a = b)"
| "value_equiv (String a) (String b) = (a = b)"
| "value_equiv (Document d) (Document d') =
     (list_all (\<lambda>(k, v). case map_of d' k of None \<Rightarrow> False | Some v' \<Rightarrow> value_equiv v v') d \<and>
      list_all (\<lambda>k. k \<in> set (map fst d)) (map fst d'))"
| "value_equiv (Sequence xs) (Sequence ys) = list_all2 value_equiv xs ys"
| "value_equiv _ _ = False"

text \<open>
  The same for what is stored in a \<^verbatim>\<open>MapStr\<close>: two output documents are the same Go
  map when they bind the same keys to the same values at every depth. Serialised by
  \<^verbatim>\<open>encoding/json\<close>, which writes map keys sorted, such documents are the same bytes.
\<close>

fun field_equiv :: "Field \<Rightarrow> Field \<Rightarrow> bool" where
  "field_equiv (FInt a) (FInt b) = (a = b)"
| "field_equiv (FFloat a) (FFloat b) = (a = b)"
| "field_equiv (FString a) (FString b) = (a = b)"
| "field_equiv (FBool a) (FBool b) = (a = b)"
| "field_equiv (FTime a) (FTime b) = (a = b)"
| "field_equiv (FMap m) (FMap m') =
     (list_all (\<lambda>(k, v). case map_of m' k of None \<Rightarrow> False | Some v' \<Rightarrow> field_equiv v v') m \<and>
      list_all (\<lambda>k. k \<in> set (map fst m)) (map fst m'))"
| "field_equiv _ _ = False"

subsection \<open>Errors, events and the reporter\<close>

datatype Product = Kibana

text \<open>
  The values of Go's \<^verbatim>\<open>error\<close> that occur: what the decoder returns, the aggregate of
  the field errors of a schema application, and the error for a field that a manual
  extraction did not find.
\<close>

datatype error =
    DecodeFailure string
  | AggregateError "FieldError list"
  | MissingFieldError string Product

text \<open>
  \<^verbatim>\<open>Apply\<close> as the source calls it: the output document, paired with \<^verbatim>\<open>nil\<close> or
  with the aggregate error when at least one field failed.
\<close>

definition Apply :: "Schema \<Rightarrow> Doc \<Rightarrow> MapStr \<times> error option" where
  "Apply schema input =
     (case ApplyTo schema input of
        (out, errs) \<Rightarrow> (out, if errs = [] then None else Some (AggregateError errs)))"

record Event =
  RootFields :: MapStr
  Index :: string

text \<open>
  The reporter \<^verbatim>\<open>mb.ReporterV2\<close> is the log of what has been handed to it:
  \<^verbatim>\<open>r.Event\<close> and \<^verbatim>\<open>r.Error\<close> append.
\<close>

record ReporterV2 =
  events :: "Event list"
  errors :: "error list"

definition r_Event :: "ReporterV2 \<Rightarrow> Event \<Rightarrow> ReporterV2" where
  "r_Event r e = r\<lparr>events := events r @ [e]\<rparr>"

definition r_Error :: "ReporterV2 \<Rightarrow> error \<Rightarrow> ReporterV2" where
  "r_Error r err = r\<lparr>errors := errors r @ [err]\<rparr>"

text \<open>
  Modelled from the spec: \<^verbatim>\<open>elastic.ReportErrorForMissingField\<close>
  (\<^verbatim>\<open>metricbeat/helper/elastic\<close> is not in the source file). The failure of a manual
  extraction is a hard error for the named field; it is handed to the error reporter and
  returned.
\<close>

definition ReportErrorForMissingField ::
  "string \<Rightarrow> Product \<Rightarrow> ReporterV2 \<Rightarrow> ReporterV2 \<times> error" where
  "ReportErrorForMissingField field product r =
     (r_Error r (MissingFieldError field product), MissingFieldError field product)"

text \<open>A call either returns its \<^verbatim>\<open>error\<close> (\<open>None\<close> is \<^verbatim>\<open>nil\<close>) or panics.\<close>

datatype Outcome = Returned "error option" | Panicked

text \<open>
  What the function takes from outside the source file: the JSON decoder, the clock, the
  package variable \<^verbatim>\<open>RequestsDict\<close> (declared in another file of the package), the
  index name of \<^verbatim>\<open>elastic.MakeXPackMonitoringIndexName\<close>, and the order in which this
  run ranges over the maps of the schema.
\<close>

record Env =
  json_Unmarshal :: "byte list \<Rightarrow> error + Doc"
  time_Now :: nat
  RequestsDict :: SchemaNode
  MakeXPackMonitoringIndexName :: "Product \<Rightarrow> string"
  rangeOrder :: RangeOrder

subsection \<open>The schema of the source file\<close>

text \<open>
  The package variables of the source, each map literal listed entry by entry as the
  source writes it. Being Go maps they have no order: what a run visits is
  \<open>reorder\<close> of these listings.
\<close>

definition reportingCsvDict :: SchemaNode where
  "reportingCsvDict = c_Dict ''csv''
     [(''available'', c_Bool ''available'' []),
      (''total'', c_Int ''total'' [])]
     [DictOptional]"

definition reportingPrintablePdfDict :: SchemaNode where
  "reportingPrintablePdfDict = c_Dict ''printable_pdf''
     [(''available'', c_Bool ''available'' []),
      (''total'', c_Int ''total'' []),
      (''app'', c_Dict ''app''
         [(''visualization'', c_Int ''visualization'' []),
          (''dashboard'', c_Int ''dashboard'' [])]
         [DictOptional]),
      (''layout'', c_Dict ''layout''
         [(''print'', c_Int ''print'' []),
          (''preserve_layout'', c_Int ''preserve_layout'' [])]
         [DictOptional])]
     [DictOptional]"

definition reportingStatusDict :: SchemaNode where
  "reportingStatusDict = c_Dict ''status''
     [(''completed'', c_Int ''completed'' [Optional]),
      (''failed'', c_Int ''failed'' [Optional]),
      (''processing'', c_Int ''processing'' [Optional]),
      (''pending'', c_Int ''pending'' [Optional])]
     [DictOptional]"

definition reportingPeriodSchema :: Schema where
  "reportingPeriodSchema =
     [(''_all'', c_Int ''all'' []),
      (''csv'', reportingCsvDict),
      (''printable_pdf'', reportingPrintablePdfDict),
      (''status'', reportingStatusDict)]"

definition schemaXPackMonitoring :: "SchemaNode \<Rightarrow> Schema" where
  "schemaXPackMonitoring requestsDict =
     [(''concurrent_connections'', c_Int ''concurrent_connections'' []),
      (''os'', c_Dict ''os''
         [(''load'', c_Dict ''load''
             [(''1m'', c_Float ''1m'' []),
              (''5m'', c_Float ''5m'' []),
              (''15m'', c_Float ''15m'' [])]
             []),
          (''memory'', c_Dict ''memory''
             [(''total_in_bytes'', c_Int ''total_bytes'' []),
              (''free_in_bytes'', c_Int ''free_bytes'' []),
              (''used_in_bytes'', c_Int ''used_bytes'' [])]
             []),
          (''uptime_in_millis'', c_Int ''uptime_ms'' [])]
         []),
      (''process'', c_Dict ''process''
         [(''event_loop_delay'', c_Float ''event_loop_delay'' []),
          (''memory'', c_Dict ''memory''
             [(''heap'', c_Dict ''heap''
                 [(''total_in_bytes'', c_Int ''total_bytes'' []),
                  (''used_in_bytes'', c_Int ''used_bytes'' []),
                  (''size_limit'', c_Int ''size_limit'' [])]
                 [])]
             []),
          (''uptime_in_millis'', c_Int ''uptime_ms'' [])]
         []),
      (''requests'', requestsDict),
      (''response_times'', c_Dict ''response_times''
         [(''average'', c_Int ''avg_ms'' [Optional]),
          (''max'', c_Int ''max_ms'' [Optional])]
         [DictOptional]),
      (''kibana'', c_Dict ''kibana''
         [(''uuid'', c_Str ''uuid'' []),
          (''name'', c_Str ''name'' []),
          (''index'', c_Str ''index'' []),
          (''host'', c_Str ''host'' []),
          (''transport_address'', c_Str ''transport_address'' []),
          (''version'', c_Str ''version'' []),
          (''snapshot'', c_Bool ''snapshot'' []),
          (''status'', c_Str ''status'' [])]
         []),
      (''usage'', c_Dict ''usage''
         [(''index'', c_Str ''kibana.index'' []),
          (''index_pattern'', c_Dict ''kibana.index_pattern''
             [(''total'', c_Int ''total'' [])] []),
          (''search'', c_Dict ''kibana.search''
             [(''total'', c_Int ''total'' [])] []),
          (''visualization'', c_Dict ''kibana.visualization''
             [(''total'', c_Int ''total'' [])] []),
          (''dashboard'', c_Dict ''kibana.dashboard''
             [(''total'', c_Int ''total'' [])] []),
          (''timelion_sheet'', c_Dict ''kibana.timelion_sheet''
             [(''total'', c_Int ''total'' [])] []),
          (''graph_workspace'', c_Dict ''kibana.graph_workspace''
             [(''total'', c_Int ''total'' [])] []),
          (''xpack'', Object
             [(''reporting'', c_Dict ''reporting''
                 [(''available'', c_Bool ''available'' []),
                  (''enabled'', c_Bool ''enabled'' []),
                  (''browser_type'', c_Str ''browser_type'' []),
                  (''_all'', c_Int ''all'' []),
                  (''csv'', reportingCsvDict),
                  (''printable_pdf'', reportingPrintablePdfDict),
                  (''status'', reportingStatusDict),
                  (''lastDay'', c_Dict ''last_day'' reportingPeriodSchema [DictOptional]),
                  (''last7Days'', c_Dict ''last_7_days'' reportingPeriodSchema [DictOptional])]
                 [DictOptional])])]
         [])]"

subsection \<open>The event mapping of the source file\<close>

text \<open>
  The package variable \<^verbatim>\<open>schemaXPackMonitoring\<close> as a run visits it: the source's
  \<^verbatim>\<open>schemaXPackMonitoring.Apply(data)\<close> ranges over the map and over the maps nested
  in it in the order of the run.
\<close>

definition rangedSchema :: "Env \<Rightarrow> Schema" where
  "rangedSchema env = reorder (rangeOrder env) [] (schemaXPackMonitoring (RequestsDict env))"

text \<open>
  \<^verbatim>\<open>eventMappingXPack(r, intervalMs, content)\<close>. The reporter is threaded through;
  the unchecked type assertion \<^verbatim>\<open>data["cluster_uuid"].(string)\<close> panics when the key
  is absent or holds anything but a string, after the two writes to the local
  \<^verbatim>\<open>kibanaStatsFields\<close> and before \<^verbatim>\<open>r.Event\<close>.
\<close>

definition eventMappingXPack ::
  "Env \<Rightarrow> ReporterV2 \<Rightarrow> int64 \<Rightarrow> byte list \<Rightarrow> ReporterV2 \<times> Outcome" where
  "eventMappingXPack env r intervalMs content =
     (case json_Unmarshal env content of
        Inl err \<Rightarrow> (r_Error r err, Returned (Some err))
      | Inr data \<Rightarrow>
     (case Apply (rangedSchema env) data of
        (kibanaStatsFields, Some err) \<Rightarrow> (r_Error r err, Returned (Some err))
      | (kibanaStatsFields, None) \<Rightarrow>
     (case map_of data ''process'' of
        Some (Document process) \<Rightarrow>
     (case map_of process ''memory'' of
        Some (Document memory) \<Rightarrow>
     (case map_of memory ''resident_set_size_bytes'' of
        Some (Number rss) \<Rightarrow>
          (let kibanaStatsFields1 =
                 Put ''process.memory.resident_set_size_in_bytes''
                   (FInt (float64_to_int64 rss)) kibanaStatsFields;
               timestamp = time_Now env;
               kibanaStatsFields2 = Put ''timestamp'' (FTime timestamp) kibanaStatsFields1
           in (case map_of data ''cluster_uuid'' of
                 Some (String cluster_uuid) \<Rightarrow>
                   (r_Event r
                      \<lparr>RootFields =
                         [(''cluster_uuid'', FString cluster_uuid),
                          (''timestamp'', FTime timestamp),
                          (''interval_ms'', FInt intervalMs),
                          (''type'', FString ''kibana_stats''),
                          (''kibana_stats'', FMap kibanaStatsFields2)],
                       Index = MakeXPackMonitoringIndexName env Kibana\<rparr>,
                    Returned None)
               | _ \<Rightarrow> (r, Panicked)))
      | _ \<Rightarrow>
          (case ReportErrorForMissingField ''process.memory.resident_set_size_bytes'' Kibana r of
             (r', err) \<Rightarrow> (r', Returned (Some err))))
      | _ \<Rightarrow>
          (case ReportErrorForMissingField ''process.memory'' Kibana r of
             (r', err) \<Rightarrow> (r', Returned (Some err))))
      | _ \<Rightarrow>
          (case ReportErrorForMissingField ''process'' Kibana r of
             (r', err) \<Rightarrow> (r', Returned (Some err))))))"

subsection \<open>Sample inputs\<close>

text \<open>
  Concrete inputs for the closed instances below. \<open>claimDoc\<close> is the document of the
  end-to-end scenario. \<open>statsDoc\<close> is a stats payload that holds every field the schema
  requires; its two arguments are the value under \<^verbatim>\<open>cluster_uuid\<close> and the value under
  \<^verbatim>\<open>process.memory.resident_set_size_bytes\<close> (\<open>None\<close>: key absent).
  \<open>requestsDictSample\<close> stands in for the package variable \<^verbatim>\<open>RequestsDict\<close>.
  \<open>listedOrder\<close> is the run that visits every map as it is listed, \<open>byLength\<close> a
  run that visits shorter field names first.
\<close>

definition listedOrder :: RangeOrder where
  "listedOrder = (\<lambda>p n. 0)"

definition byLength :: RangeOrder where
  "byLength = (\<lambda>p n. length n)"

definition requestsDictSample :: SchemaNode where
  "requestsDictSample = c_Dict ''requests''
     [(''disconnects'', c_Int ''disconnects'' [Optional]),
      (''total'', c_Int ''total'' [Optional])]
     []"

definition claimDoc :: Doc where
  "claimDoc =
     [(''cluster_uuid'', String ''c1''),
      (''process'', Document
         [(''memory'', Document [(''resident_set_size_bytes'', Number 123)])])]"

definition statsDoc :: "Value option \<Rightarrow> Value option \<Rightarrow> Doc" where
  "statsDoc uuid rss =
     (case uuid of None \<Rightarrow> [] | Some u \<Rightarrow> [(''cluster_uuid'', u)]) @
     [(''concurrent_connections'', Number 7),
      (''os'', Document
         [(''load'', Document
             [(''1m'', Number (1 / 2)), (''5m'', Number (1 / 4)), (''15m'', Number (1 / 8))]),
          (''memory'', Document
             [(''total_bytes'', Number 4096), (''free_bytes'', Number 1024),
              (''used_bytes'', Number 3072)]),
          (''uptime_ms'', Number 5000)]),
      (''process'', Document
         [(''event_loop_delay'', Number (3 / 2)),
          (''memory'', Document
             ((''heap'', Document
                 [(''total_bytes'', Number 300), (''used_bytes'', Number 200),
                  (''size_limit'', Number 400)])
              # (case rss of None \<Rightarrow> [] | Some v \<Rightarrow> [(''resident_set_size_bytes'', v)]))),
          (''uptime_ms'', Number 6000)]),
      (''requests'', Document [(''total'', Number 9)]),
      (''kibana'', Document
         [(''uuid'', String ''k1''), (''name'', String ''kib''), (''index'', String ''.kibana''),
          (''host'', String ''localhost''), (''transport_address'', String ''localhost:5601''),
          (''version'', String ''6.5.0''), (''snapshot'', Bool False),
          (''status'', String ''green'')]),
      (''usage'', Document
         [(''kibana'', Document
            [(''index'', String ''.kibana''),
             (''index_pattern'', Document [(''total'', Number 5)]),
             (''search'', Document [(''total'', Number 1)]),
             (''visualization'', Document [(''total'', Number 2)]),
             (''dashboard'', Document [(''total'', Number 3)]),
             (''timelion_sheet'', Document [(''total'', Number 0)]),
             (''graph_workspace'', Document [(''total'', Number 0)])])])]"

definition sampleEnv :: "Doc \<Rightarrow> Env" where
  "sampleEnv d =
     \<lparr>json_Unmarshal = (\<lambda>_. Inr d),
      time_Now = 1000,
      RequestsDict = requestsDictSample,
      MakeXPackMonitoringIndexName = (\<lambda>_. ''.monitoring-kibana-6-mb''),
      rangeOrder = listedOrder\<rparr>"

definition r0 :: ReporterV2 where
  "r0 = \<lparr>events = [], errors = []\<rparr>"

section \<open>Properties\<close>

subsection \<open>Unfolding rules\<close>

lemmas schema_defs = schemaXPackMonitoring_def c_Int_def c_Float_def c_Str_def c_Bool_def c_Dict_def
  reportingCsvDict_def reportingPrintablePdfDict_def reportingStatusDict_def reportingPeriodSchema_def

lemmas apply_defs = Apply_def ApplyTo_def resolve_def splitPath_def target_def
  float64_to_int64_def trunc_def fits_int64_def

lemmas event_defs = eventMappingXPack_def r_Event_def r_Error_def ReportErrorForMissingField_def Put_def

lemma reorderNode_listed: "reorderNode listedOrder p node = node"
  by (induction node arbitrary: p)
     (auto simp: listedOrder_def case_prod_unfold sort_key_const intro!: map_idI)

lemma reorder_listed: "reorder listedOrder p s = s"
proof -
  have "map (\<lambda>(n, node). (n, reorderNode listedOrder (p @ [n]) node)) s = s"
    by (rule map_idI) (auto simp: reorderNode_listed)
  then show ?thesis
    by (simp add: reorder_def listedOrder_def case_prod_unfold sort_key_const)
qed

lemmas sample_defs = sampleEnv_def statsDoc_def claimDoc_def r0_def requestsDictSample_def
  rangedSchema_def reorder_listed

subsection \<open>Errors are only ever appended\<close>

lemma applyNode_applySchema_errs:
  "applyNode n node d (out, pre @ errs) =
     (fst (applyNode n node d (out, errs)), pre @ snd (applyNode n node d (out, errs)))"
  "applySchema s d (fst acc, pre @ snd acc) =
     (fst (applySchema s d acc), pre @ snd (applySchema s d acc))"
proof (induction n node d "(out, errs)" and s d acc arbitrary: out errs pre and pre
    rule: applyNode_applySchema.induct)
  case (1 fieldName sourceKey targetPath kind optional input out errs)
  show ?case by (simp split: option.splits)
next
  case (2 fieldName sourceKey targetPath child optional input out errs)
  show ?case by (simp split: option.splits Value.splits prod.splits)
next
  case (3 fieldName child input out errs)
  show ?case by (simp split: prod.splits)
next
  case (4 input acc)
  show ?case by simp
next
  case (5 fieldName node rest input acc)
  obtain out errs where acc: "acc = (out, errs)" by (cases acc)
  have a: "applyNode fieldName node input (out, pre @ errs) =
     (fst (applyNode fieldName node input (out, errs)), pre @ snd (applyNode fieldName node input (out, errs)))"
    using 5(1)[of out errs pre] acc by simp
  show ?case using 5(2)[of pre] by (simp add: acc a)
qed

lemma applySchema_errs_split:
  "applySchema s d (out, errs) =
     (fst (applySchema s d (out, [])), errs @ snd (applySchema s d (out, [])))"
  using applyNode_applySchema_errs(2) [of s d "(out, [])" errs] by simp

lemma applySchema_append:
  "applySchema (xs @ ys) d acc = applySchema ys d (applySchema xs d acc)"
proof (induction xs arbitrary: acc)
  case Nil
  show ?case by simp
next
  case (Cons x xs)
  then show ?case by (cases x) simp
qed

lemma applyNode_absent:
  assumes "resolve sourceKey input = None"
    and "node = Leaf sourceKey targetPath kind optional \<or>
         node = Nested sourceKey targetPath child optional"
  shows "applyNode fieldName node input (out, errs) =
     (out, if optional then errs else errs @ [FieldError sourceKey MissingField])"
  using assms by auto

subsection \<open>Writes stay under their target\<close>

lemma split_on_nonempty: "split_on c s \<noteq> []"
  by (induction s) (auto split: list.splits)

lemma map_of_putPath_other:
  "p \<noteq> [] \<Longrightarrow> hd p \<noteq> k \<Longrightarrow> map_of (putPath p v m) k = map_of m k"
  by (induction p v m rule: putPath.induct)
     (auto simp: update_conv' split: option.splits Field.splits)

lemma target_nonempty: "target n tp \<noteq> []"
  by (simp add: target_def splitPath_def split_on_nonempty)

lemma nodeTarget_nonempty: "nodeTarget n node \<noteq> []"
  by (cases node) (simp_all add: target_nonempty)

lemma applyNode_out_cases:
  "fst (applyNode n node d acc) = fst acc \<or>
   (\<exists>w. fst (applyNode n node d acc) = putPath (nodeTarget n node) w (fst acc))"
  by (cases acc; cases node)
     (auto split: option.splits Value.splits prod.splits)

lemma applyNode_frame:
  "hd (nodeTarget n node) \<noteq> k \<Longrightarrow>
   map_of (fst (applyNode n node d acc)) k = map_of (fst acc) k"
  using applyNode_out_cases [of n node d acc]
  by (auto simp: map_of_putPath_other nodeTarget_nonempty)

lemma applySchema_frame:
  "k \<notin> set (rootKeys s) \<Longrightarrow> map_of (fst (applySchema s d acc)) k = map_of (fst acc) k"
proof (induction s arbitrary: acc)
  case Nil
  show ?case by simp
next
  case (Cons e s)
  obtain n node where e: "e = (n, node)" by (cases e)
  from Cons.prems have k: "hd (nodeTarget n node) \<noteq> k" "k \<notin> set (rootKeys s)"
    by (auto simp: rootKeys_def e)
  show ?case
    using Cons.IH [OF k(2), of "applyNode n node d acc"] applyNode_frame [OF k(1), of d acc]
    by (simp add: e)
qed

lemma resolve_single: "CHR ''.'' \<notin> set k \<Longrightarrow> resolve k d = map_of d k"
proof -
  have "CHR ''.'' \<notin> set k \<Longrightarrow> split_on (CHR ''.'') k = [k]"
    by (induction k) auto
  then show "CHR ''.'' \<notin> set k \<Longrightarrow> resolve k d = map_of d k"
    by (simp add: resolve_def splitPath_def)
qed

subsection \<open>What every node reports and writes\<close>

lemma applyNode_errs: "snd (applyNode n node d (out, e0)) = e0 @ nodeErrs node d"
  by (cases node) (auto simp: nodeErrs_def split: option.splits Value.splits prod.splits)

lemma applySchema_errs:
  "snd (applySchema s d (out0, e0)) = e0 @ concat (map (\<lambda>(n, node). nodeErrs node d) s)"
proof (induction s arbitrary: out0 e0)
  case Nil
  show ?case by simp
next
  case (Cons e s)
  obtain n node where e: "e = (n, node)" by (cases e)
  obtain out1 e1 where a: "applyNode n node d (out0, e0) = (out1, e1)"
    by (cases "applyNode n node d (out0, e0)")
  have "e1 = e0 @ nodeErrs node d"
    using applyNode_errs [of n node d out0 e0] a by simp
  then show ?case
    using Cons.IH [of out1 e1] by (simp add: e a)
qed

lemma applyNode_out:
  "nodeTarget n node = [n] \<Longrightarrow>
   fst (applyNode n node d (out, e)) =
     (case nodeOut node d of None \<Rightarrow> out | Some w \<Rightarrow> AList.update n w out)"
  by (cases node) (auto split: option.splits Value.splits prod.splits)

lemma applySchema_out:
  assumes "list_all (\<lambda>(n, node). nodeTarget n node = [n]) s" and "distinct (map fst s)"
  shows "map_of (fst (applySchema s d (out0, e0))) k =
     (case map_of s k of
        None \<Rightarrow> map_of out0 k
      | Some node \<Rightarrow> (case nodeOut node d of None \<Rightarrow> map_of out0 k | Some w \<Rightarrow> Some w))"
  using assms
proof (induction s arbitrary: out0 e0)
  case Nil
  show ?case by simp
next
  case (Cons e s)
  obtain n node where e: "e = (n, node)" by (cases e)
  obtain out1 e1 where a: "applyNode n node d (out0, e0) = (out1, e1)"
    by (cases "applyNode n node d (out0, e0)")
  from Cons.prems have t: "nodeTarget n node = [n]"
    and s: "list_all (\<lambda>(n, node). nodeTarget n node = [n]) s" "distinct (map fst s)"
    and fresh: "n \<notin> fst ` set s"
    by (auto simp: e)
  have out1: "out1 = (case nodeOut node d of None \<Rightarrow> out0 | Some w \<Rightarrow> AList.update n w out0)"
    using applyNode_out [OF t, of d out0 e0] a by simp
  have nk: "map_of s n = None"
    using fresh by (simp add: map_of_eq_None_iff)
  show ?case
    using Cons.IH [OF s, of out1 e1] nk
    by (auto simp: e a out1 update_conv' split: option.splits)
qed

subsection \<open>Schemas in the order of a run\<close>

lemma nodeTarget_reorderNode: "nodeTarget n (reorderNode rk q node) = nodeTarget n node"
  by (cases node) simp_all

lemma mset_reorder:
  "mset (reorder rk p s) =
     image_mset (\<lambda>(n, node). (n, reorderNode rk (p @ [n]) node)) (mset s)"
  by (simp add: reorder_def)

lemma map_fst_relabel:
  "map fst (map (\<lambda>(n, node). (n, h n node)) s) = map fst s"
  by (induction s) auto

lemma mset_keys_reorder: "mset (map fst (reorder rk p s)) = mset (map fst s)"
proof -
  let ?xs = "map (\<lambda>(n, node). (n, reorderNode rk (p @ [n]) node)) s"
  have "mset (reorder rk p s) = mset ?xs"
    unfolding reorder_def by (rule mset_sort)
  then have "image_mset fst (mset (reorder rk p s)) = image_mset fst (mset ?xs)"
    by (rule arg_cong)
  then have "mset (map fst (reorder rk p s)) = mset (map fst ?xs)"
    unfolding mset_map .
  then show ?thesis by (simp only: map_fst_relabel)
qed

lemma distinct_keys_reorder: "distinct (map fst (reorder rk p s)) = distinct (map fst s)"
  using mset_keys_reorder [of rk p s] by (rule mset_eq_imp_distinct_iff)

lemma set_keys_reorder: "fst ` set (reorder rk p s) = fst ` set s"
  using mset_keys_reorder [of rk p s, THEN mset_eq_setD] by simp

lemma map_of_relabel:
  "map_of (map (\<lambda>(n, node). (n, h n node)) s) k = map_option (h k) (map_of s k)"
  by (induction s) auto

lemma map_of_reorder:
  assumes "distinct (map fst s)"
  shows "map_of (reorder rk p s) k = map_option (reorderNode rk (p @ [k])) (map_of s k)"
proof -
  let ?xs = "map (\<lambda>(n, node). (n, reorderNode rk (p @ [n]) node)) s"
  have d: "distinct (map fst ?xs)"
    using assms by (simp only: map_fst_relabel)
  have "distinct (map fst (reorder rk p s))"
    using assms by (simp add: distinct_keys_reorder)
  moreover have "set (reorder rk p s) = set ?xs"
    by (simp add: reorder_def)
  ultimately have "map_of (reorder rk p s) = map_of ?xs"
    using d by (simp add: map_of_inject_set reorder_def)
  then show ?thesis by (simp add: map_of_relabel)
qed

lemma flat_reorder:
  assumes "list_all (\<lambda>(n, node). nodeTarget n node = [n]) s"
  shows "list_all (\<lambda>(n, node). nodeTarget n node = [n]) (reorder rk p s)"
  using assms
  by (auto simp: reorder_def list_all_iff nodeTarget_reorderNode)

lemma plain_flat:
  "list_all (\<lambda>(n, node). plainNode node) s \<Longrightarrow>
   list_all (\<lambda>(n, node). nodeTarget n node = [n]) s"
proof -
  have "plainNode node \<Longrightarrow> nodeTarget n node = [n]" for n node
    by (cases node) (simp_all add: target_def)
  then show "list_all (\<lambda>(n, node). plainNode node) s \<Longrightarrow>
      list_all (\<lambda>(n, node). nodeTarget n node = [n]) s"
    by (auto simp: list_all_iff)
qed

lemma mset_errs_reorder:
  "mset (snd (applySchema (reorder rk p s) d (out0, []))) =
     (\<Sum>(n, node)\<in>#mset s. mset (nodeErrs (reorderNode rk (p @ [n]) node) d))"
proof -
  have "mset (snd (applySchema (reorder rk p s) d (out0, []))) =
        (\<Sum>e\<in>#mset (reorder rk p s). mset (case e of (n, node) \<Rightarrow> nodeErrs node d))"
    by (simp add: applySchema_errs mset_concat sum_mset_sum_list [symmetric] comp_def)
  also have "\<dots> = (\<Sum>(n, node)\<in>#mset s. mset (nodeErrs (reorderNode rk (p @ [n]) node) d))"
    by (simp add: mset_reorder image_mset.compositionality comp_def case_prod_unfold)
  finally show ?thesis .
qed

lemma distinct_putPath:
  "distinct (map fst m) \<Longrightarrow> distinct (map fst (putPath p v m))"
  by (induction p v m rule: putPath.induct)
     (auto simp: distinct_update split: option.splits Field.splits)

lemma distinct_applyNode:
  "distinct (map fst (fst acc)) \<Longrightarrow> distinct (map fst (fst (applyNode n node d acc)))"
  using applyNode_out_cases [of n node d acc] by (auto simp: distinct_putPath)

lemma distinct_applySchema:
  "distinct (map fst (fst acc)) \<Longrightarrow> distinct (map fst (fst (applySchema s d acc)))"
proof (induction s arbitrary: acc)
  case Nil
  then show ?case by simp
next
  case (Cons e s)
  obtain n node where e: "e = (n, node)" by (cases e)
  show ?case
    using Cons.IH [OF distinct_applyNode [OF Cons.prems, of n node d]] by (simp add: e)
qed

lemma field_equiv_FMapI:
  assumes d: "distinct (map fst m)"
    and pw: "\<And>k. rel_option field_equiv (map_of m k) (map_of m' k)"
  shows "field_equiv (FMap m) (FMap m')"
proof -
  have "case map_of m' k of None \<Rightarrow> False | Some v' \<Rightarrow> field_equiv v v'"
    if "(k, v) \<in> set m" for k v
  proof -
    have "map_of m k = Some v" using d that by (rule map_of_is_SomeI)
    with pw [of k] show ?thesis by (auto simp: option_rel_Some1)
  qed
  moreover have "k \<in> fst ` set m" if "k \<in> fst ` set m'" for k
  proof -
    from that have "map_of m' k \<noteq> None" by (simp add: map_of_eq_None_iff)
    with pw [of k] have "map_of m k \<noteq> None" by (cases "map_of m k") auto
    then show ?thesis by (simp add: map_of_eq_None_iff)
  qed
  ultimately show ?thesis by (auto simp: list_all_iff)
qed

lemma coerce_scalar: "coerce kind v = Some w \<Longrightarrow> field_equiv w w"
  by (cases kind; cases v) auto

lemma reorderNode_Nested:
  "reorderNode rk q (Nested sk tp ch opt) = Nested sk tp (reorder rk q ch) opt"
  by (simp add: reorder_def)

lemma reorderNode_Object: "reorderNode rk q (Object ch) = Object (reorder rk q ch)"
  by (simp add: reorder_def)

lemma nodeErrs_Nested:
  "nodeErrs (Nested sk tp ch opt) d =
     (case resolve sk d of
        None \<Rightarrow> if opt then [] else [FieldError sk MissingField]
      | Some (Document sub) \<Rightarrow> map (prefixError sk) (snd (applySchema ch sub ([], [])))
      | Some _ \<Rightarrow> [FieldError sk TypeMismatch])"
  by (simp add: nodeErrs_def split: option.splits Value.splits prod.splits)

lemma nodeErrs_Object: "nodeErrs (Object ch) d = snd (applySchema ch d ([], []))"
  by (simp add: nodeErrs_def split: prod.splits)

lemma schema_invariant:
  assumes dist: "distinct (map fst s)"
    and plain: "list_all (\<lambda>(n, node). plainNode node) s"
    and nodes: "\<And>n node q q'. (n, node) \<in> set s \<Longrightarrow>
       mset (nodeErrs (reorderNode rk q node) d) = mset (nodeErrs (reorderNode rk' q' node) d) \<and>
       rel_option field_equiv (nodeOut (reorderNode rk q node) d)
         (nodeOut (reorderNode rk' q' node) d)"
  shows "mset (snd (applySchema (reorder rk p s) d ([], []))) =
           mset (snd (applySchema (reorder rk' p' s) d ([], []))) \<and>
         field_equiv (FMap (fst (applySchema (reorder rk p s) d ([], []))))
           (FMap (fst (applySchema (reorder rk' p' s) d ([], []))))"
proof
  have "(\<Sum>(n, node)\<in>#mset s. mset (nodeErrs (reorderNode rk (p @ [n]) node) d)) =
        (\<Sum>(n, node)\<in>#mset s. mset (nodeErrs (reorderNode rk' (p' @ [n]) node) d))"
    by (rule arg_cong [where f = sum_mset], rule image_mset_cong) (use nodes in auto)
  then show "mset (snd (applySchema (reorder rk p s) d ([], []))) =
           mset (snd (applySchema (reorder rk' p' s) d ([], [])))"
    by (simp only: mset_errs_reorder)
next
  let ?out = "fst (applySchema (reorder rk p s) d ([], []))"
  let ?out' = "fst (applySchema (reorder rk' p' s) d ([], []))"
  have flat: "list_all (\<lambda>(n, node). nodeTarget n node = [n]) (reorder r q s)" for r q
    by (rule flat_reorder [OF plain_flat [OF plain]])
  have dist': "distinct (map fst (reorder r q s))" for r q
    using dist by (simp add: distinct_keys_reorder)
  have out: "map_of (fst (applySchema (reorder r q s) d ([], []))) k =
      (case map_of s k of
         None \<Rightarrow> None
       | Some node \<Rightarrow> nodeOut (reorderNode r (q @ [k]) node) d)" for r q k
    using applySchema_out [OF flat dist', of r q d "[]" "[]" k]
    by (simp add: map_of_reorder [OF dist] split: option.splits)
  have "rel_option field_equiv (map_of ?out k) (map_of ?out' k)" for k
  proof (cases "map_of s k")
    case None
    then show ?thesis by (simp add: out)
  next
    case (Some node)
    then have "(k, node) \<in> set s" by (rule map_of_SomeD)
    from nodes [OF this] show ?thesis by (simp add: out Some)
  qed
  moreover have "distinct (map fst ?out)"
    by (rule distinct_applySchema) simp
  ultimately show "field_equiv (FMap ?out) (FMap ?out')"
    by (intro field_equiv_FMapI)
qed

lemma node_invariant:
  "plainNode node \<Longrightarrow>
   mset (nodeErrs (reorderNode rk q node) d) = mset (nodeErrs (reorderNode rk' q' node) d) \<and>
   rel_option field_equiv (nodeOut (reorderNode rk q node) d)
     (nodeOut (reorderNode rk' q' node) d)"
proof (induction node arbitrary: q q' d)
  case (Leaf sk tp kind opt)
  show ?case
    by (cases "resolve sk d")
       (auto simp: option.rel_sel coerce_scalar split: option.splits)
next
  case (Nested sk tp ch opt)
  have inv: "mset (snd (applySchema (reorder rk q ch) sub ([], []))) =
           mset (snd (applySchema (reorder rk' q' ch) sub ([], []))) \<and>
         field_equiv (FMap (fst (applySchema (reorder rk q ch) sub ([], []))))
           (FMap (fst (applySchema (reorder rk' q' ch) sub ([], []))))" for sub
  proof (rule schema_invariant)
    show "distinct (map fst ch)" "list_all (\<lambda>(n, node). plainNode node) ch"
      using Nested.prems by simp_all
  next
    fix n node p p'
    assume m: "(n, node) \<in> set ch"
    then have "plainNode node" using Nested.prems by (auto simp: list_all_iff)
    with Nested.IH [of "(n, node)" node] m
    show "mset (nodeErrs (reorderNode rk p node) sub) = mset (nodeErrs (reorderNode rk' p' node) sub) \<and>
       rel_option field_equiv (nodeOut (reorderNode rk p node) sub)
         (nodeOut (reorderNode rk' p' node) sub)"
      by simp
  qed
  show ?case
  proof (cases "resolve sk d")
    case None
    then show ?thesis by (simp add: reorderNode_Nested nodeErrs_Nested del: reorderNode.simps)
  next
    case (Some v)
    then show ?thesis
      using inv
      by (cases v) (simp_all add: reorderNode_Nested nodeErrs_Nested del: reorderNode.simps)
  qed
next
  case (Object ch)
  have inv: "mset (snd (applySchema (reorder rk q ch) d ([], []))) =
           mset (snd (applySchema (reorder rk' q' ch) d ([], []))) \<and>
         field_equiv (FMap (fst (applySchema (reorder rk q ch) d ([], []))))
           (FMap (fst (applySchema (reorder rk' q' ch) d ([], []))))"
  proof (rule schema_invariant)
    show "distinct (map fst ch)" "list_all (\<lambda>(n, node). plainNode node) ch"
      using Object.prems by simp_all
  next
    fix n node p p'
    assume m: "(n, node) \<in> set ch"
    then have "plainNode node" using Object.prems by (auto simp: list_all_iff)
    with Object.IH [of "(n, node)" node] m
    show "mset (nodeErrs (reorderNode rk p node) d) = mset (nodeErrs (reorderNode rk' p' node) d) \<and>
       rel_option field_equiv (nodeOut (reorderNode rk p node) d)
         (nodeOut (reorderNode rk' p' node) d)"
      by simp
  qed
  then show ?case
    by (simp add: reorderNode_Object nodeErrs_Object del: reorderNode.simps)
qed

lemma apply_range_order:
  assumes "plainSchema s"
  shows "mset (snd (ApplyTo (reorder rk [] s) d)) = mset (snd (ApplyTo (reorder rk' [] s) d)) \<and>
         field_equiv (FMap (fst (ApplyTo (reorder rk [] s) d)))
           (FMap (fst (ApplyTo (reorder rk' [] s) d)))"
  unfolding ApplyTo_def
proof (rule schema_invariant)
  show "distinct (map fst s)" "list_all (\<lambda>(n, node). plainNode node) s"
    using assms by (simp_all add: plainSchema_def)
next
  fix n node q q'
  assume "(n, node) \<in> set s"
  then have "plainNode node" using assms by (auto simp: plainSchema_def list_all_iff)
  then show "mset (nodeErrs (reorderNode rk q node) d) = mset (nodeErrs (reorderNode rk' q' node) d) \<and>
       rel_option field_equiv (nodeOut (reorderNode rk q node) d)
         (nodeOut (reorderNode rk' q' node) d)"
    by (rule node_invariant)
qed

text \<open>
  Every order of a map is the order of some run: sorting any listing of a map with
  distinct keys by the positions of the keys in another listing of it gives that other
  listing.
\<close>

lemma positions:
  "distinct (map fst xs) \<Longrightarrow> map (\<lambda>e. position xs (fst e)) xs = [0..<length xs]"
proof (induction xs)
  case Nil
  show ?case by simp
next
  case (Cons x xs)
  have "map (\<lambda>e. position (x # xs) (fst e)) xs = map (\<lambda>e. Suc (position xs (fst e))) xs"
    using Cons.prems by (intro map_cong) (auto simp: position_def)
  also have "\<dots> = map Suc (map (\<lambda>e. position xs (fst e)) xs)"
    by simp
  also have "\<dots> = [Suc 0..<Suc (length xs)]"
    using Cons by (simp add: map_Suc_upt del: upt_Suc)
  finally show ?case
    by (simp add: position_def upt_conv_Cons del: upt_Suc)
qed

lemma position_inj:
  assumes "distinct (map fst xs)" "a \<in> set xs" "b \<in> set xs"
    "position xs (fst a) = position xs (fst b)"
  shows "a = b"
proof -
  have "inj_on (\<lambda>e. position xs (fst e)) (set xs)"
    using positions [OF assms(1)]
    by (metis distinct_map distinct_upt)
  then show ?thesis using assms(2-4) by (auto dest: inj_onD)
qed

lemma filter_single: "distinct xs \<Longrightarrow> k \<in> set xs \<Longrightarrow> filter (\<lambda>x. k = x) xs = [k]"
  by (induction xs) (auto simp: filter_empty_conv)

lemma every_order_is_ranked:
  assumes d: "distinct (map fst s)" and p: "mset s' = mset s"
  shows "sort_key (\<lambda>(n, node). position s' n) s = s'"
proof (rule properties_for_sort_key [OF p])
  have d': "distinct (map fst s')"
    using d p by (metis mset_eq_imp_distinct_iff mset_map)
  show "sorted (map (\<lambda>(n, node). position s' n) s')"
    using positions [OF d'] by (simp add: case_prod_unfold)
  fix k assume k: "k \<in> set s'"
  have ds: "distinct s" "distinct s'"
    using d d' by (auto simp: distinct_map)
  have eq: "(case k of (n, node) \<Rightarrow> position s' n) = (case x of (n, node) \<Rightarrow> position s' n) \<longleftrightarrow> k = x"
    if "x \<in> set s'" for x
    using position_inj [OF d' k that] by (auto simp: case_prod_unfold)
  have s: "set s = set s'" using p by (metis set_mset_mset)
  have "filter (\<lambda>x. (case k of (n, node) \<Rightarrow> position s' n) = (case x of (n, node) \<Rightarrow> position s' n)) s' = filter (\<lambda>x. k = x) s'"
    by (rule filter_cong) (auto simp: eq)
  moreover have "filter (\<lambda>x. (case k of (n, node) \<Rightarrow> position s' n) = (case x of (n, node) \<Rightarrow> position s' n)) s = filter (\<lambda>x. k = x) s"
    by (rule filter_cong) (auto simp: eq s)
  moreover have "filter (\<lambda>x. k = x) s' = [k]" "filter (\<lambda>x. k = x) s = [k]"
    using ds k s by (auto intro: filter_single)
  ultimately show "filter (\<lambda>x. (case k of (n, node) \<Rightarrow> position s' n) = (case x of (n, node) \<Rightarrow> position s' n)) s' =
      filter (\<lambda>x. (case k of (n, node) \<Rightarrow> position s' n) = (case x of (n, node) \<Rightarrow> position s' n)) s"
    by simp
qed

lemma set_rootKeys_reorder: "set (rootKeys (reorder rk p s)) = set (rootKeys s)"
proof -
  have "set (rootKeys (reorder rk p s)) =
        (\<lambda>(n, node). hd (nodeTarget n node)) `
          ((\<lambda>(n, node). (n, reorderNode rk (p @ [n]) node)) ` set s)"
    by (simp add: rootKeys_def reorder_def)
  also have "\<dots> = (\<lambda>(n, node). hd (nodeTarget n node)) ` set s"
    by (simp add: image_image case_prod_unfold nodeTarget_reorderNode)
  finally show ?thesis by (simp add: rootKeys_def)
qed

lemma nodeErrs_Nil_in_schema:
  assumes "snd (applySchema s d (out0, e0)) = []" and "(n, node) \<in> set s"
  shows "nodeErrs node d = []"
  using assms by (auto simp: applySchema_errs)

lemma applySchema_Dict_entry:
  assumes flat: "list_all (\<lambda>(n, node). nodeTarget n node = [n]) s"
    and dist: "distinct (map fst s)"
    and entry: "map_of s n = Some (Nested sk [] ch False)"
    and ok: "snd (applySchema s d (out0, e0)) = []"
  shows "\<exists>sub. resolve sk d = Some (Document sub) \<and>
           snd (applySchema ch sub ([], [])) = [] \<and>
           map_of (fst (applySchema s d (out0, e0))) n =
             Some (FMap (fst (applySchema ch sub ([], []))))"
proof -
  from entry have "(n, Nested sk [] ch False) \<in> set s" by (rule map_of_SomeD)
  from nodeErrs_Nil_in_schema [OF ok this]
  obtain sub where sub: "resolve sk d = Some (Document sub)"
      "snd (applySchema ch sub ([], [])) = []"
    by (auto simp: nodeErrs_Nested split: option.splits Value.splits)
  then show ?thesis
    using applySchema_out [OF flat dist, of d out0 e0 n] entry by simp
qed

lemma schema_shape:
  assumes ok: "ApplyTo (reorder rk [] (schemaXPackMonitoring (c_Dict key sch opts))) data = (out, [])"
  shows "\<exists>process memory p m.
           map_of data ''process'' = Some (Document process) \<and>
           map_of process ''memory'' = Some (Document memory) \<and>
           map_of out ''process'' = Some (FMap p) \<and>
           map_of p ''memory'' = Some (FMap m)"
proof -
  let ?S = "schemaXPackMonitoring (c_Dict key sch opts)"
  define heap :: Schema where "heap =
     [(''heap'', c_Dict ''heap''
         [(''total_in_bytes'', c_Int ''total_bytes'' []),
          (''used_in_bytes'', c_Int ''used_bytes'' []),
          (''size_limit'', c_Int ''size_limit'' [])]
         [])]"
  define child :: Schema where "child =
     [(''event_loop_delay'', c_Float ''event_loop_delay'' []),
      (''memory'', c_Dict ''memory'' heap []),
      (''uptime_in_millis'', c_Int ''uptime_ms'' [])]"
  have S: "list_all (\<lambda>(n, node). nodeTarget n node = [n]) ?S" "distinct (map fst ?S)"
    "map_of ?S ''process'' = Some (Nested ''process'' [] child False)"
    by (simp_all add: schema_defs target_def child_def heap_def)
  have C: "list_all (\<lambda>(n, node). nodeTarget n node = [n]) child" "distinct (map fst child)"
    "map_of child ''memory'' = Some (Nested ''memory'' [] heap False)"
    by (simp_all add: child_def c_Dict_def c_Int_def c_Float_def target_def)
  have "map_of (reorder rk [] ?S) ''process'' =
          Some (Nested ''process'' [] (reorder rk [''process''] child) False)"
    by (simp add: map_of_reorder [OF S(2)] S(3) reorderNode_Nested del: reorderNode.simps)
  from applySchema_Dict_entry [OF flat_reorder [OF S(1)] _ this, of data "[]" "[]"] ok
  obtain process where
    p: "resolve ''process'' data = Some (Document process)"
      "snd (applySchema (reorder rk [''process''] child) process ([], [])) = []"
      "map_of out ''process'' =
         Some (FMap (fst (applySchema (reorder rk [''process''] child) process ([], []))))"
    by (auto simp: ApplyTo_def distinct_keys_reorder S(2))
  have "map_of (reorder rk [''process''] child) ''memory'' =
          Some (Nested ''memory'' [] (reorder rk [''process'', ''memory''] heap) False)"
    by (simp add: map_of_reorder [OF C(2)] C(3) reorderNode_Nested del: reorderNode.simps)
  from applySchema_Dict_entry [OF flat_reorder [OF C(1)] _ this p(2)]
  obtain memory where
    m: "resolve ''memory'' process = Some (Document memory)"
      "map_of (fst (applySchema (reorder rk [''process''] child) process ([], []))) ''memory'' =
         Some (FMap (fst (applySchema (reorder rk [''process'', ''memory''] heap) memory ([], []))))"
    by (auto simp: distinct_keys_reorder C(2))
  show ?thesis
    using p(1,3) m by (simp add: resolve_single)
qed

lemma Apply_None_iff: "snd (Apply s d) = None \<longleftrightarrow> snd (ApplyTo s d) = []"
  by (simp add: Apply_def split: prod.splits)

lemma Apply_fst: "fst (Apply s d) = fst (ApplyTo s d)"
  by (simp add: Apply_def split: prod.splits)

subsection \<open>The way out of the event mapping without an error\<close>

lemma eventMappingXPack_emits:
  assumes "json_Unmarshal env content = Inr data"
    and "snd (Apply (rangedSchema env) data) = None"
    and "map_of data ''process'' = Some (Document process)"
    and "map_of process ''memory'' = Some (Document memory)"
    and "map_of memory ''resident_set_size_bytes'' = Some (Number rss)"
    and "map_of data ''cluster_uuid'' = Some (String cluster_uuid)"
  shows "eventMappingXPack env r intervalMs content =
     (r\<lparr>events := events r @
         [\<lparr>RootFields =
             [(''cluster_uuid'', FString cluster_uuid),
              (''timestamp'', FTime (time_Now env)),
              (''interval_ms'', FInt intervalMs),
              (''type'', FString ''kibana_stats''),
              (''kibana_stats'', FMap
                 (Put ''timestamp'' (FTime (time_Now env))
                    (Put ''process.memory.resident_set_size_in_bytes''
                       (FInt (float64_to_int64 rss))
                       (fst (Apply (rangedSchema env) data)))))],
            Index = MakeXPackMonitoringIndexName env Kibana\<rparr>]\<rparr>,
      Returned None)"
proof -
  obtain out where "Apply (rangedSchema env) data = (out, None)"
    using assms(2) by (cases "Apply (rangedSchema env) data") simp
  then show ?thesis
    using assms by (simp add: eventMappingXPack_def r_Event_def Let_def)
qed

lemma eventMappingXPack_returns_nil:
  assumes "snd (eventMappingXPack env r intervalMs content) = Returned None"
  shows "\<exists>data process memory rss cluster_uuid.
     json_Unmarshal env content = Inr data \<and>
     snd (Apply (rangedSchema env) data) = None \<and>
     map_of data ''process'' = Some (Document process) \<and>
     map_of process ''memory'' = Some (Document memory) \<and>
     map_of memory ''resident_set_size_bytes'' = Some (Number rss) \<and>
     map_of data ''cluster_uuid'' = Some (String cluster_uuid)"
  using assms
  by (simp add: eventMappingXPack_def ReportErrorForMissingField_def Let_def
      split: sum.splits prod.splits option.splits Value.splits)

lemma patched_field:
  assumes "map_of out ''process'' = Some (FMap p)" and "map_of p ''memory'' = Some (FMap m)"
  shows "GetValue ''process.memory.resident_set_size_in_bytes''
           (Put ''timestamp'' t (Put ''process.memory.resident_set_size_in_bytes'' v out)) = Some v"
  using assms
  by (simp add: GetValue_def Put_def splitPath_def update_conv')

lemma sint_float64_to_int64:
  "fits_int64 (trunc f) \<Longrightarrow> sint (float64_to_int64 f) = trunc f"
  unfolding float64_to_int64_def fits_int64_def
  by (simp add: signed_of_int signed_take_bit_int_eq_self)

lemma event_patched_field:
  assumes "json_Unmarshal env content = Inr data"
    and "snd (Apply (rangedSchema env) data) = None"
    and "RequestsDict env = c_Dict key sch opts"
    and "map_of data ''process'' = Some (Document process)"
    and "map_of process ''memory'' = Some (Document memory)"
    and "map_of memory ''resident_set_size_bytes'' = Some (Number rss)"
    and "map_of data ''cluster_uuid'' = Some (String cluster_uuid)"
  shows "\<exists>ev. eventMappingXPack env r intervalMs content =
             (r\<lparr>events := events r @ [ev]\<rparr>, Returned None) \<and>
           map_of (RootFields ev) ''cluster_uuid'' = Some (FString cluster_uuid) \<and>
           map_of (RootFields ev) ''interval_ms'' = Some (FInt intervalMs) \<and>
           map_of (RootFields ev) ''type'' = Some (FString ''kibana_stats'') \<and>
           GetValue ''kibana_stats.process.memory.resident_set_size_in_bytes'' (RootFields ev) =
             Some (FInt (float64_to_int64 rss))"
proof -
  let ?S = "rangedSchema env"
  have "ApplyTo (reorder (rangeOrder env) [] (schemaXPackMonitoring (c_Dict key sch opts))) data =
          (fst (Apply ?S data), [])"
    using assms(2,3) by (simp add: Apply_None_iff Apply_fst prod_eq_iff rangedSchema_def)
  from schema_shape [OF this] obtain p m where
    pm: "map_of (fst (Apply ?S data)) ''process'' = Some (FMap p)"
      "map_of p ''memory'' = Some (FMap m)"
    by blast
  define ks where "ks = Put ''timestamp'' (FTime (time_Now env))
              (Put ''process.memory.resident_set_size_in_bytes''
                 (FInt (float64_to_int64 rss)) (fst (Apply ?S data)))"
  define ev where "ev = \<lparr>RootFields =
             [(''cluster_uuid'', FString cluster_uuid),
              (''timestamp'', FTime (time_Now env)),
              (''interval_ms'', FInt intervalMs),
              (''type'', FString ''kibana_stats''),
              (''kibana_stats'', FMap ks)],
            Index = MakeXPackMonitoringIndexName env Kibana\<rparr>"
  have ks: "GetValue ''process.memory.resident_set_size_in_bytes'' ks =
        Some (FInt (float64_to_int64 rss))"
    unfolding ks_def by (rule patched_field [OF pm])
  have res: "eventMappingXPack env r intervalMs content =
      (r\<lparr>events := events r @ [ev]\<rparr>, Returned None)"
    using eventMappingXPack_emits [OF assms(1,2,4-7), of r intervalMs]
    by (simp add: ev_def ks_def)
  have "GetValue ''kibana_stats.process.memory.resident_set_size_in_bytes'' (RootFields ev) =
        GetValue ''process.memory.resident_set_size_in_bytes'' ks"
    by (simp add: GetValue_def splitPath_def ev_def)
  with ks res show ?thesis
    by (intro exI [of _ ev]) (simp add: ev_def)
qed

lemma sample_stats_hyps:
  "json_Unmarshal (sampleEnv (statsDoc (Some (String ''c1'')) (Some (Number 123)))) [] =
     Inr (statsDoc (Some (String ''c1'')) (Some (Number 123)))"
  "snd (Apply (rangedSchema (sampleEnv (statsDoc (Some (String ''c1'')) (Some (Number 123)))))
        (statsDoc (Some (String ''c1'')) (Some (Number 123)))) = None"
  "RequestsDict (sampleEnv (statsDoc (Some (String ''c1'')) (Some (Number 123)))) =
     c_Dict ''requests''
       [(''disconnects'', c_Int ''disconnects'' [Optional]),
        (''total'', c_Int ''total'' [Optional])] []"
  "map_of (statsDoc (Some (String ''c1'')) (Some (Number 123))) ''cluster_uuid'' =
     Some (String ''c1'')"
  "map_of (statsDoc (Some (String ''c1'')) (Some (Number 123))) ''process'' =
     Some (Document
       [(''event_loop_delay'', Number (3 / 2)),
        (''memory'', Document
           [(''heap'', Document [(''total_bytes'', Number 300), (''used_bytes'', Number 200),
                 (''size_limit'', Number 400)]),
            (''resident_set_size_bytes'', Number 123)]),
        (''uptime_ms'', Number 6000)])"
  by (simp_all add: sample_defs apply_defs schema_defs)

subsection \<open>The order of the bindings of a document does not matter\<close>

lemma value_equiv_lookup:
  assumes "value_equiv (Document d) (Document d')"
  shows "rel_option value_equiv (map_of d k) (map_of d' k)"
proof (cases "map_of d k")
  case None
  then have "k \<notin> fst ` set d" by (simp add: map_of_eq_None_iff)
  with assms have "k \<notin> fst ` set d'" by (auto simp: list_all_iff)
  then have "map_of d' k = None" by (simp add: map_of_eq_None_iff)
  with None show ?thesis by simp
next
  case (Some v)
  then have "(k, v) \<in> set d" by (rule map_of_SomeD)
  with assms show ?thesis
    by (auto simp: list_all_iff Some split: option.splits)
qed

lemma value_equiv_getValue:
  "value_equiv (Document d) (Document d') \<Longrightarrow>
   rel_option value_equiv (getValue p d) (getValue p d')"
proof (induction p d arbitrary: d' rule: getValue.induct)
  case (1 d)
  show ?case by simp
next
  case (2 k d)
  then show ?case using value_equiv_lookup [of d d' k] by simp
next
  case (3 k k' ks d)
  show ?case
  proof (cases "map_of d k")
    case None
    with value_equiv_lookup [OF 3(2), of k] show ?thesis by simp
  next
    case (Some v)
    with value_equiv_lookup [OF 3(2), of k] obtain v' where
      v': "map_of d' k = Some v'" "value_equiv v v'"
      by (auto simp: option_rel_Some1)
    show ?thesis
    proof (cases v)
      case (Document sub)
      with v'(2) obtain sub' where s: "v' = Document sub'" by (cases v') auto
      show ?thesis
        using 3(1) [OF Some Document, of sub'] v' s Document Some by simp
    qed (use v' Some in \<open>cases v'; simp\<close>)+
  qed
qed

lemma value_equiv_coerce: "value_equiv v v' \<Longrightarrow> coerce kind v = coerce kind v'"
  by (cases kind; cases v; cases v') simp_all

lemma apply_order_insensitive:
  "value_equiv (Document d) (Document d') \<Longrightarrow> applyNode n node d acc0 = applyNode n node d' acc0"
  "value_equiv (Document d1) (Document d1') \<Longrightarrow> applySchema s d1 acc = applySchema s d1' acc"
proof (induction n node d acc0 and s d1 acc arbitrary: d' and d1' rule: applyNode_applySchema.induct)
  case (1 fieldName sourceKey targetPath kind optional input out errs)
  from value_equiv_getValue [OF 1, of "splitPath sourceKey"]
  have "rel_option value_equiv (resolve sourceKey input) (resolve sourceKey d')"
    by (simp add: resolve_def)
  then show ?case
    by (cases "resolve sourceKey input"; cases "resolve sourceKey d'")
       (auto dest: value_equiv_coerce [of _ _ kind])
next
  case (2 fieldName sourceKey targetPath child optional input out errs)
  from value_equiv_getValue [OF 2(2), of "splitPath sourceKey"]
  have r: "rel_option value_equiv (resolve sourceKey input) (resolve sourceKey d')"
    by (simp add: resolve_def)
  show ?case
  proof (cases "resolve sourceKey input")
    case None
    with r show ?thesis by simp
  next
    case (Some v)
    with r obtain v' where v': "resolve sourceKey d' = Some v'" "value_equiv v v'"
      by (auto simp: option_rel_Some1)
    show ?thesis
    proof (cases v)
      case (Document sub)
      with v'(2) obtain sub' where s: "v' = Document sub'" by (cases v') auto
      have "applySchema child sub ([], []) = applySchema child sub' ([], [])"
        using 2(1) [OF _ Document, of sub'] Some Document v'(2) s by (simp add: resolve_def)
      then show ?thesis using Some Document v' s by simp
    qed (use v' Some in \<open>cases v'; simp\<close>)+
  qed
next
  case (3 fieldName child input out errs)
  then show ?case by simp
next
  case (4 input acc)
  show ?case by simp
next
  case (5 fieldName node rest input acc)
  then show ?case by simp
qed

lemma plain_schemaXPackMonitoring:
  "plainNode rd \<Longrightarrow> plainSchema (schemaXPackMonitoring rd)"
  by (simp add: plainSchema_def schema_defs)

subsection \<open>The claims\<close>

text \<open>
  Claim C1, as amended. The document of the end-to-end scenario lacks fields the schema
  requires, so the schema application returns its aggregate error and the function returns
  it without emitting anything. For every input
  document on which the schema applies without an error and which holds
  \<^verbatim>\<open>cluster_uuid = "c1"\<close> and \<^verbatim>\<open>process.memory.resident_set_size_bytes = 123.0\<close>,
  with interval 10000, the function emits exactly one event, returns \<^verbatim>\<open>nil\<close>, and the
  root document holds \<^verbatim>\<open>cluster_uuid = "c1"\<close>, \<^verbatim>\<open>interval_ms = 10000\<close>,
  \<^verbatim>\<open>type = "kibana_stats"\<close> and, inside \<^verbatim>\<open>kibana_stats\<close>, the patched integer
  \<^verbatim>\<open>process.memory.resident_set_size_in_bytes = 123\<close>. \<^verbatim>\<open>RequestsDict\<close> is taken to
  be built by \<^verbatim>\<open>c.Dict\<close>, like every other dictionary of the file.
\<close>

theorem end_to_end:
  assumes "json_Unmarshal env content = Inr data"
    and "snd (Apply (rangedSchema env) data) = None"
    and "RequestsDict env = c_Dict key sch opts"
    and "map_of data ''cluster_uuid'' = Some (String ''c1'')"
    and "map_of data ''process'' = Some (Document process)"
    and "map_of process ''memory'' = Some (Document memory)"
    and "map_of memory ''resident_set_size_bytes'' = Some (Number 123)"
  shows "\<exists>ev. eventMappingXPack env r 10000 content =
             (r\<lparr>events := events r @ [ev]\<rparr>, Returned None) \<and>
           map_of (RootFields ev) ''cluster_uuid'' = Some (FString ''c1'') \<and>
           map_of (RootFields ev) ''interval_ms'' = Some (FInt 10000) \<and>
           map_of (RootFields ev) ''type'' = Some (FString ''kibana_stats'') \<and>
           GetValue ''kibana_stats.process.memory.resident_set_size_in_bytes'' (RootFields ev) =
             Some (FInt 123)"
proof -
  have "float64_to_int64 123 = 123"
    by (simp add: float64_to_int64_def trunc_def fits_int64_def)
  then show ?thesis
    using event_patched_field [OF assms(1-3,5-7,4), of r 10000] by simp
qed

theorem end_to_end_witness:
  "snd (Apply (rangedSchema (sampleEnv (statsDoc (Some (String ''c1'')) (Some (Number 123)))))
        (statsDoc (Some (String ''c1'')) (Some (Number 123)))) = None \<and>
   (\<exists>ev. eventMappingXPack (sampleEnv (statsDoc (Some (String ''c1'')) (Some (Number 123))))
            r0 10000 [] = (r0\<lparr>events := events r0 @ [ev]\<rparr>, Returned None) \<and>
         map_of (RootFields ev) ''cluster_uuid'' = Some (FString ''c1'') \<and>
         map_of (RootFields ev) ''interval_ms'' = Some (FInt 10000) \<and>
         map_of (RootFields ev) ''type'' = Some (FString ''kibana_stats'') \<and>
         GetValue ''kibana_stats.process.memory.resident_set_size_in_bytes'' (RootFields ev) =
           Some (FInt 123))"
  using end_to_end [OF sample_stats_hyps(1-5), where r = r0] sample_stats_hyps(2)
  by simp

text \<open>
  Claim C1 as stated fails: on the scenario's own document the function reports the
  aggregate of eight missing required fields, returns it, and emits no event.
\<close>

theorem end_to_end_counterexample:
  "eventMappingXPack (sampleEnv claimDoc) r0 10000 [] =
     (r0\<lparr>errors :=
          [AggregateError
            [FieldError ''concurrent_connections'' MissingField,
             FieldError ''os'' MissingField,
             FieldError ''process.event_loop_delay'' MissingField,
             FieldError ''process.memory.heap'' MissingField,
             FieldError ''process.uptime_ms'' MissingField,
             FieldError ''requests'' MissingField,
             FieldError ''kibana'' MissingField,
             FieldError ''usage'' MissingField]]\<rparr>,
      Returned (Some (AggregateError
            [FieldError ''concurrent_connections'' MissingField,
             FieldError ''os'' MissingField,
             FieldError ''process.event_loop_delay'' MissingField,
             FieldError ''process.memory.heap'' MissingField,
             FieldError ''process.uptime_ms'' MissingField,
             FieldError ''requests'' MissingField,
             FieldError ''kibana'' MissingField,
             FieldError ''usage'' MissingField]))) \<and>
   events (fst (eventMappingXPack (sampleEnv claimDoc) r0 10000 [])) = []"
  by (simp add: event_defs sample_defs apply_defs schema_defs)

text \<open>
  Claim C2, as amended. In every invocation that returns \<^verbatim>\<open>nil\<close> one event is
  emitted; the interval, the type tag and the cluster identifier are at the root and are
  not keys of the \<^verbatim>\<open>kibana_stats\<close> sub-document, while the capture timestamp is
  written twice, at the root and inside the sub-document (the source calls
  \<^verbatim>\<open>kibanaStatsFields.Put("timestamp", timestamp)\<close>). Nothing else is written inside:
  the sub-document is exactly the output of the schema for the decoded payload with two
  writes on top, the integer of the payload's
  \<^verbatim>\<open>process.memory.resident_set_size_bytes\<close> at
  \<^verbatim>\<open>process.memory.resident_set_size_in_bytes\<close> and the timestamp at
  \<^verbatim>\<open>timestamp\<close>.
\<close>

theorem metadata_at_root:
  assumes ok: "snd (eventMappingXPack env r intervalMs content) = Returned None"
    and rd: "RequestsDict env = c_Dict key sch opts"
  shows "\<exists>ev ks c data rss.
     fst (eventMappingXPack env r intervalMs content) = r\<lparr>events := events r @ [ev]\<rparr> \<and>
     map_of (RootFields ev) ''kibana_stats'' = Some (FMap ks) \<and>
     map_of (RootFields ev) ''timestamp'' = Some (FTime (time_Now env)) \<and>
     map_of (RootFields ev) ''interval_ms'' = Some (FInt intervalMs) \<and>
     map_of (RootFields ev) ''type'' = Some (FString ''kibana_stats'') \<and>
     map_of (RootFields ev) ''cluster_uuid'' = Some (FString c) \<and>
     map_of ks ''timestamp'' = Some (FTime (time_Now env)) \<and>
     map_of ks ''interval_ms'' = None \<and>
     map_of ks ''type'' = None \<and>
     map_of ks ''cluster_uuid'' = None \<and>
     map_of ks ''kibana_stats'' = None \<and>
     json_Unmarshal env content = Inr data \<and>
     resolve ''process.memory.resident_set_size_bytes'' data = Some (Number rss) \<and>
     ks = Put ''timestamp'' (FTime (time_Now env))
            (Put ''process.memory.resident_set_size_in_bytes'' (FInt (float64_to_int64 rss))
               (fst (Apply (rangedSchema env) data)))"
proof -
  let ?S = "rangedSchema env"
  from eventMappingXPack_returns_nil [OF ok] obtain data process memory rss c where
    h: "json_Unmarshal env content = Inr data"
      "snd (Apply ?S data) = None"
      "map_of data ''process'' = Some (Document process)"
      "map_of process ''memory'' = Some (Document memory)"
      "map_of memory ''resident_set_size_bytes'' = Some (Number rss)"
      "map_of data ''cluster_uuid'' = Some (String c)"
    by blast
  define out where "out = fst (Apply ?S data)"
  define ks1 where "ks1 = Put ''process.memory.resident_set_size_in_bytes''
                 (FInt (float64_to_int64 rss)) out"
  define ks where "ks = Put ''timestamp'' (FTime (time_Now env)) ks1"
  define ev where "ev = \<lparr>RootFields =
             [(''cluster_uuid'', FString c),
              (''timestamp'', FTime (time_Now env)),
              (''interval_ms'', FInt intervalMs),
              (''type'', FString ''kibana_stats''),
              (''kibana_stats'', FMap ks)],
            Index = MakeXPackMonitoringIndexName env Kibana\<rparr>"
  have res: "fst (eventMappingXPack env r intervalMs content) = r\<lparr>events := events r @ [ev]\<rparr>"
    using eventMappingXPack_emits [OF h, of r intervalMs]
    by (simp add: ev_def ks_def ks1_def out_def)
  have absent: "map_of ks k = None"
    if k: "k \<notin> set (rootKeys ?S)" "k \<noteq> ''process''" "k \<noteq> ''timestamp''" for k
  proof -
    have "map_of ks k = map_of ks1 k"
      using k(3) by (simp add: ks_def Put_def splitPath_def update_conv')
    also have "\<dots> = map_of out k"
      unfolding ks1_def Put_def
      using k(2) by (intro map_of_putPath_other) (simp_all add: splitPath_def)
    also have "\<dots> = None"
      using applySchema_frame [OF k(1), of data "([], [])"]
      by (simp add: out_def Apply_fst ApplyTo_def)
    finally show ?thesis .
  qed
  have "set (rootKeys (schemaXPackMonitoring (RequestsDict env))) =
      {''concurrent_connections'', ''os'', ''process'', ''requests'', ''response_times'',
       ''kibana'', ''usage''}"
    by (simp add: rd rootKeys_def schema_defs target_def)
  then have fresh: "''interval_ms'' \<notin> set (rootKeys ?S)" "''type'' \<notin> set (rootKeys ?S)"
    "''cluster_uuid'' \<notin> set (rootKeys ?S)" "''kibana_stats'' \<notin> set (rootKeys ?S)"
    by (simp_all add: rangedSchema_def set_rootKeys_reorder)
  have ts: "map_of ks ''timestamp'' = Some (FTime (time_Now env))"
    by (simp add: ks_def Put_def splitPath_def update_conv')
  have a: "map_of ks ''interval_ms'' = None" "map_of ks ''type'' = None"
    "map_of ks ''cluster_uuid'' = None" "map_of ks ''kibana_stats'' = None"
    using absent [OF fresh(1)] absent [OF fresh(2)] absent [OF fresh(3)] absent [OF fresh(4)]
    by simp_all
  have rss: "resolve ''process.memory.resident_set_size_bytes'' data = Some (Number rss)"
    using h(3-5) by (simp add: resolve_def splitPath_def)
  have exact: "ks = Put ''timestamp'' (FTime (time_Now env))
            (Put ''process.memory.resident_set_size_in_bytes'' (FInt (float64_to_int64 rss))
               (fst (Apply (rangedSchema env) data)))"
    by (simp add: ks_def ks1_def out_def)
  show ?thesis
    using res ts a h(1) rss exact
    by (intro exI [of _ ev] exI [of _ ks] exI [of _ c] exI [of _ data] exI [of _ rss])
       (simp add: ev_def)
qed

theorem metadata_at_root_witness:
  "snd (eventMappingXPack (sampleEnv (statsDoc (Some (String ''c1'')) (Some (Number 123))))
          r0 10000 []) = Returned None \<and>
   (\<exists>ev ks c data rss.
     fst (eventMappingXPack (sampleEnv (statsDoc (Some (String ''c1'')) (Some (Number 123))))
            r0 10000 []) = r0\<lparr>events := events r0 @ [ev]\<rparr> \<and>
     map_of (RootFields ev) ''kibana_stats'' = Some (FMap ks) \<and>
     map_of (RootFields ev) ''timestamp'' = Some (FTime 1000) \<and>
     map_of (RootFields ev) ''interval_ms'' = Some (FInt 10000) \<and>
     map_of (RootFields ev) ''type'' = Some (FString ''kibana_stats'') \<and>
     map_of (RootFields ev) ''cluster_uuid'' = Some (FString c) \<and>
     map_of ks ''timestamp'' = Some (FTime 1000) \<and>
     map_of ks ''interval_ms'' = None \<and>
     map_of ks ''type'' = None \<and>
     map_of ks ''cluster_uuid'' = None \<and>
     map_of ks ''kibana_stats'' = None \<and>
     json_Unmarshal (sampleEnv (statsDoc (Some (String ''c1'')) (Some (Number 123)))) [] =
       Inr data \<and>
     resolve ''process.memory.resident_set_size_bytes'' data = Some (Number rss) \<and>
     ks = Put ''timestamp'' (FTime 1000)
            (Put ''process.memory.resident_set_size_in_bytes'' (FInt (float64_to_int64 rss))
               (fst (Apply (rangedSchema
                  (sampleEnv (statsDoc (Some (String ''c1'')) (Some (Number 123))))) data))))"
proof -
  let ?env = "sampleEnv (statsDoc (Some (String ''c1'')) (Some (Number 123)))"
  have ok: "snd (eventMappingXPack ?env r0 10000 []) = Returned None"
    by (simp add: event_defs sample_defs apply_defs schema_defs Let_def)
  have now: "time_Now ?env = 1000"
    by (simp add: sampleEnv_def)
  show ?thesis
    using metadata_at_root [OF ok sample_stats_hyps(3)] ok now by simp
qed

text \<open>
  Claim C2 as stated fails: after a successful invocation the \<^verbatim>\<open>kibana_stats\<close>
  sub-document of the emitted event holds the key \<^verbatim>\<open>timestamp\<close>.
\<close>

theorem metadata_counterexample:
  "snd (eventMappingXPack (sampleEnv (statsDoc (Some (String ''c1'')) (Some (Number 123))))
          r0 10000 []) = Returned None \<and>
   map (GetValue ''kibana_stats.timestamp'' \<circ> RootFields)
     (events (fst (eventMappingXPack
        (sampleEnv (statsDoc (Some (String ''c1'')) (Some (Number 123)))) r0 10000 []))) =
     [Some (FTime 1000)]"
  by (simp add: event_defs sample_defs apply_defs schema_defs GetValue_def Let_def)

text \<open>
  Claim C3. When decoding fails, or the schema application returns an error, or one of
  the three manual extractions (\<^verbatim>\<open>process\<close>, \<^verbatim>\<open>process.memory\<close>,
  \<^verbatim>\<open>process.memory.resident_set_size_bytes\<close>) fails, the function hands exactly one
  error to the reporter, returns that error, and leaves the reporter's events as they
  were: \<^verbatim>\<open>r.Event\<close> is not called.
\<close>

theorem hard_errors_short_circuit:
  assumes "(\<exists>e. json_Unmarshal env content = Inl e) \<or>
     (\<exists>data. json_Unmarshal env content = Inr data \<and>
        (snd (Apply (rangedSchema env) data) \<noteq> None \<or>
         (\<forall>process. map_of data ''process'' \<noteq> Some (Document process)) \<or>
         (\<exists>process. map_of data ''process'' = Some (Document process) \<and>
            ((\<forall>memory. map_of process ''memory'' \<noteq> Some (Document memory)) \<or>
             (\<exists>memory. map_of process ''memory'' = Some (Document memory) \<and>
                (\<forall>rss. map_of memory ''resident_set_size_bytes'' \<noteq> Some (Number rss)))))))"
  shows "\<exists>err. eventMappingXPack env r intervalMs content =
           (r\<lparr>errors := errors r @ [err]\<rparr>, Returned (Some err))"
  using assms
  by (auto simp: eventMappingXPack_def r_Error_def ReportErrorForMissingField_def Let_def
      split: sum.splits prod.splits option.splits Value.splits)

theorem hard_errors_short_circuit_witness:
  "eventMappingXPack
       (sampleEnv claimDoc\<lparr>json_Unmarshal := (\<lambda>_. Inl (DecodeFailure ''unexpected end of JSON input''))\<rparr>)
       r0 10000 [] =
     (r0\<lparr>errors := [DecodeFailure ''unexpected end of JSON input'']\<rparr>,
      Returned (Some (DecodeFailure ''unexpected end of JSON input''))) \<and>
   snd (Apply (rangedSchema (sampleEnv claimDoc)) claimDoc) \<noteq> None \<and>
   (\<exists>err. eventMappingXPack (sampleEnv claimDoc) r0 10000 [] =
      (r0\<lparr>errors := errors r0 @ [err]\<rparr>, Returned (Some err))) \<and>
   snd (Apply (rangedSchema (sampleEnv (statsDoc (Some (String ''c1'')) None)))
          (statsDoc (Some (String ''c1'')) None)) = None \<and>
   eventMappingXPack (sampleEnv (statsDoc (Some (String ''c1'')) None)) r0 10000 [] =
     (r0\<lparr>errors := [MissingFieldError ''process.memory.resident_set_size_bytes'' Kibana]\<rparr>,
      Returned (Some (MissingFieldError ''process.memory.resident_set_size_bytes'' Kibana)))"
proof -
  let ?bad = "sampleEnv claimDoc\<lparr>json_Unmarshal := (\<lambda>_. Inl (DecodeFailure ''unexpected end of JSON input''))\<rparr>"
  have h1: "\<exists>e. json_Unmarshal ?bad [] = Inl e"
    by (simp add: sampleEnv_def)
  have h2: "json_Unmarshal (sampleEnv claimDoc) [] = Inr claimDoc"
    "snd (Apply (rangedSchema (sampleEnv claimDoc)) claimDoc) \<noteq> None"
    by (simp_all add: sample_defs apply_defs schema_defs)
  let ?d = "statsDoc (Some (String ''c1'')) None"
  have h3: "json_Unmarshal (sampleEnv ?d) [] = Inr ?d"
    "snd (Apply (rangedSchema (sampleEnv ?d)) ?d) = None"
    by (simp_all add: sample_defs apply_defs schema_defs)
  have c1: "eventMappingXPack ?bad r0 10000 [] =
     (r0\<lparr>errors := [DecodeFailure ''unexpected end of JSON input'']\<rparr>,
      Returned (Some (DecodeFailure ''unexpected end of JSON input'')))"
    using hard_errors_short_circuit [of ?bad "[]" r0 10000] h1
    by (simp add: event_defs sample_defs)
  have c2: "\<exists>err. eventMappingXPack (sampleEnv claimDoc) r0 10000 [] =
      (r0\<lparr>errors := errors r0 @ [err]\<rparr>, Returned (Some err))"
    using hard_errors_short_circuit [of "sampleEnv claimDoc" "[]" r0 10000] h2
    by blast
  have c3: "eventMappingXPack (sampleEnv ?d) r0 10000 [] =
     (r0\<lparr>errors := [MissingFieldError ''process.memory.resident_set_size_bytes'' Kibana]\<rparr>,
      Returned (Some (MissingFieldError ''process.memory.resident_set_size_bytes'' Kibana)))"
    by (simp add: event_defs sample_defs apply_defs schema_defs)
  show ?thesis using c1 h2(2) c2 h3(2) c3 by simp
qed

text \<open>
  Claim C4. A leaf whose source value is present and coerces is in the output of
  \<open>Apply\<close> whatever errors the other entries of the schema produce, as long as no
  later entry writes to the same key. In particular a schema of two required leaves, one
  present and one absent, in either order, yields the present field's coerced value and
  an error list of length one; \<open>Apply\<close> returns that output next to the aggregate
  error.
\<close>

theorem best_effort:
  assumes present: "resolve s1 input = Some v" "coerce k1 v = Some w"
  shows "(n1 \<notin> set (rootKeys post) \<longrightarrow>
            map_of (fst (Apply (pre @ (n1, Leaf s1 [] k1 opt) # post) input)) n1 = Some w) \<and>
         (resolve s2 input = None \<longrightarrow>
            ApplyTo [(n1, Leaf s1 [] k1 False), (n2, Leaf s2 [] k2 False)] input =
              ([(n1, w)], [FieldError s2 MissingField]) \<and>
            ApplyTo [(n2, Leaf s2 [] k2 False), (n1, Leaf s1 [] k1 False)] input =
              ([(n1, w)], [FieldError s2 MissingField]) \<and>
            Apply [(n1, Leaf s1 [] k1 False), (n2, Leaf s2 [] k2 False)] input =
              ([(n1, w)], Some (AggregateError [FieldError s2 MissingField])) \<and>
            length (snd (ApplyTo [(n1, Leaf s1 [] k1 False), (n2, Leaf s2 [] k2 False)] input)) = 1)"
proof -
  have "map_of (fst (Apply (pre @ (n1, Leaf s1 [] k1 opt) # post) input)) n1 = Some w"
    if fresh: "n1 \<notin> set (rootKeys post)"
  proof -
    obtain m es where pre: "applySchema pre input ([], []) = (m, es)"
      by (cases "applySchema pre input ([], [])")
    have "map_of (fst (applySchema post input (AList.update n1 w m, es))) n1 =
          map_of (AList.update n1 w m) n1"
      using applySchema_frame [OF fresh, of input "(AList.update n1 w m, es)"] by simp
    then show ?thesis
      using present
      by (simp add: Apply_fst ApplyTo_def applySchema_append pre target_def update_conv')
  qed
  moreover have "ApplyTo [(n1, Leaf s1 [] k1 False), (n2, Leaf s2 [] k2 False)] input =
              ([(n1, w)], [FieldError s2 MissingField])"
    "ApplyTo [(n2, Leaf s2 [] k2 False), (n1, Leaf s1 [] k1 False)] input =
              ([(n1, w)], [FieldError s2 MissingField])"
    "Apply [(n1, Leaf s1 [] k1 False), (n2, Leaf s2 [] k2 False)] input =
              ([(n1, w)], Some (AggregateError [FieldError s2 MissingField]))"
    if "resolve s2 input = None"
    using present that by (simp_all add: Apply_def ApplyTo_def target_def)
  ultimately show ?thesis by simp
qed

theorem best_effort_witness:
  "map_of (fst (Apply (schemaXPackMonitoring requestsDictSample) claimDoc)) ''process'' =
     Some (FMap [(''memory'', FMap [])]) \<and>
   snd (Apply (schemaXPackMonitoring requestsDictSample) claimDoc) \<noteq> None \<and>
   ApplyTo [(''a'', Leaf ''x'' [] KInt False), (''b'', Leaf ''y'' [] KString False)]
       [(''x'', Number 42)] = ([(''a'', FInt 42)], [FieldError ''y'' MissingField]) \<and>
   map_of (fst (Apply [(''a'', Leaf ''x'' [] KInt False), (''b'', Leaf ''y'' [] KString False)]
       [(''x'', Number 42)])) ''a'' = Some (FInt 42)"
proof -
  have r: "resolve ''x'' [(''x'', Number 42)] = Some (Number 42)"
    "coerce KInt (Number 42) = Some (FInt 42)"
    "resolve ''y'' [(''x'', Number 42)] = None"
    "''a'' \<notin> set (rootKeys [(''b'', Leaf ''y'' [] KString False)])"
    by (simp_all add: resolve_def splitPath_def float64_to_int64_def trunc_def fits_int64_def
        rootKeys_def target_def)
  have a: "map_of (fst (Apply (schemaXPackMonitoring requestsDictSample) claimDoc)) ''process'' =
     Some (FMap [(''memory'', FMap [])])"
    "snd (Apply (schemaXPackMonitoring requestsDictSample) claimDoc) \<noteq> None"
    by (simp_all add: apply_defs schema_defs claimDoc_def requestsDictSample_def)
  show ?thesis
    using best_effort [OF r(1,2), of "''a''" "[(''b'', Leaf ''y'' [] KString False)]" "[]" False
        "''y''" "''b''" KString] r(3,4) a
    by simp
qed

text \<open>
  Claim C5. A leaf or nested node whose source key is absent from the input: when it is
  optional it leaves output and error list as they were, and the whole application equals
  that of the schema without the entry; when it is required it leaves the output as it
  was and adds exactly one \<open>MissingField\<close> for its source key, at its place in the
  error list.
\<close>

theorem optionality:
  assumes absent: "resolve sourceKey input = None"
    and node: "node = Leaf sourceKey targetPath kind optional \<or>
               node = Nested sourceKey targetPath child optional"
  shows "(optional \<longrightarrow>
            applyNode fieldName node input (out, errs) = (out, errs) \<and>
            ApplyTo (pre @ (fieldName, node) # post) input = ApplyTo (pre @ post) input) \<and>
         (\<not> optional \<longrightarrow>
            applyNode fieldName node input (out, errs) =
              (out, errs @ [FieldError sourceKey MissingField]) \<and>
            fst (ApplyTo (pre @ (fieldName, node) # post) input) =
              fst (ApplyTo (pre @ post) input) \<and>
            (\<exists>before after.
               snd (ApplyTo (pre @ post) input) = before @ after \<and>
               snd (ApplyTo (pre @ (fieldName, node) # post) input) =
                 before @ FieldError sourceKey MissingField # after))"
proof -
  obtain o1 e1 where pre: "applySchema pre input ([], []) = (o1, e1)"
    by (cases "applySchema pre input ([], [])")
  define o2 where "o2 = fst (applySchema post input (o1, []))"
  define e2 where "e2 = snd (applySchema post input (o1, []))"
  have post: "applySchema post input (o1, es) = (o2, es @ e2)" for es
    using applySchema_errs_split [of post input o1 es] by (simp add: o2_def e2_def)
  have without: "ApplyTo (pre @ post) input = (o2, e1 @ e2)"
    by (simp add: ApplyTo_def applySchema_append pre post)
  have step: "applyNode fieldName node input (m, es) =
      (m, if optional then es else es @ [FieldError sourceKey MissingField])" for m es
    by (rule applyNode_absent [OF absent node])
  have "with": "ApplyTo (pre @ (fieldName, node) # post) input =
      (o2, (if optional then e1 else e1 @ [FieldError sourceKey MissingField]) @ e2)"
    by (simp add: ApplyTo_def applySchema_append pre step post)
  show ?thesis
    using without "with" step [of out errs] by auto
qed

theorem optionality_witness:
  "ApplyTo (schemaXPackMonitoring requestsDictSample) (statsDoc (Some (String ''c1'')) (Some (Number 123)))
     = ApplyTo (take 4 (schemaXPackMonitoring requestsDictSample) @
                drop 5 (schemaXPackMonitoring requestsDictSample))
         (statsDoc (Some (String ''c1'')) (Some (Number 123))) \<and>
   map_of (fst (ApplyTo (schemaXPackMonitoring requestsDictSample)
                  (statsDoc (Some (String ''c1'')) (Some (Number 123))))) ''response_times'' = None \<and>
   snd (ApplyTo (schemaXPackMonitoring requestsDictSample)
          (statsDoc (Some (String ''c1'')) (Some (Number 123)))) = [] \<and>
   applyNode ''completed'' (c_Int ''completed'' [Optional]) [] ([], []) = ([], []) \<and>
   applyNode ''status'' reportingStatusDict [] ([], []) = ([], []) \<and>
   applyNode ''completed'' (c_Int ''completed'' []) [] ([], []) =
     ([], [FieldError ''completed'' MissingField])"
proof -
  let ?S = "schemaXPackMonitoring requestsDictSample"
  let ?d = "statsDoc (Some (String ''c1'')) (Some (Number 123))"
  let ?rt = "Nested ''response_times'' []
             [(''average'', c_Int ''avg_ms'' [Optional]), (''max'', c_Int ''max_ms'' [Optional])] True"
  have S: "take 4 ?S @ (''response_times'', ?rt) # drop 5 ?S = ?S"
    by (simp add: schema_defs)
  have absent: "resolve ''response_times'' ?d = None"
    by (simp add: resolve_def splitPath_def statsDoc_def)
  have a: "ApplyTo ?S ?d = ApplyTo (take 4 ?S @ drop 5 ?S) ?d"
    using optionality [where node = ?rt and targetPath = "[]" and kind = KInt
        and optional = True and fieldName = "''response_times''" and out = "[]" and errs = "[]"
        and pre = "take 4 ?S" and post = "drop 5 ?S", OF absent]
    by (simp add: S)
  have b: "map_of (fst (ApplyTo ?S ?d)) ''response_times'' = None" "snd (ApplyTo ?S ?d) = []"
    by (simp_all add: apply_defs schema_defs statsDoc_def requestsDictSample_def)
  have e: "resolve ''completed'' [] = None" "resolve ''status'' [] = None"
    by (simp_all add: resolve_def splitPath_def)
  have c: "applyNode ''completed'' (c_Int ''completed'' [Optional]) [] ([], []) = ([], [])"
    using optionality [where node = "c_Int ''completed'' [Optional]" and targetPath = "[]"
        and kind = KInt and optional = True and fieldName = "''completed''"
        and out = "[]" and errs = "[]", OF e(1)]
    by (simp add: c_Int_def)
  have d: "applyNode ''status'' reportingStatusDict [] ([], []) = ([], [])"
    using optionality [where node = reportingStatusDict and targetPath = "[]"
        and optional = True and fieldName = "''status''" and out = "[]" and errs = "[]"
        and child = "[(''completed'', c_Int ''completed'' [Optional]),
          (''failed'', c_Int ''failed'' [Optional]),
          (''processing'', c_Int ''processing'' [Optional]),
          (''pending'', c_Int ''pending'' [Optional])]", OF e(2)]
    by (simp add: reportingStatusDict_def c_Dict_def)
  have f: "applyNode ''completed'' (c_Int ''completed'' []) [] ([], []) =
     ([], [FieldError ''completed'' MissingField])"
    using optionality [where node = "c_Int ''completed'' []" and targetPath = "[]"
        and kind = KInt and optional = False and fieldName = "''completed''"
        and out = "[]" and errs = "[]", OF e(1)]
    by (simp add: c_Int_def)
  show ?thesis using a b c d f by simp
qed

text \<open>
  Claim C6, as amended. For every number whose truncation toward zero fits 64 bits, an
  \<open>Int\<close> leaf yields the integer that is this truncation, and the manual patch
  stores the same integer under \<^verbatim>\<open>process.memory.resident_set_size_in_bytes\<close> of the
  emitted event. Outside that range no 64-bit integer is the truncation.
\<close>

theorem int_coercion:
  assumes "fits_int64 (trunc f)"
  shows "coerce KInt (Number f) = Some (FInt (float64_to_int64 f)) \<and>
         sint (float64_to_int64 f) = trunc f \<and>
         (json_Unmarshal env content = Inr data \<and>
          snd (Apply (rangedSchema env) data) = None \<and>
          RequestsDict env = c_Dict key sch opts \<and>
          map_of data ''process'' = Some (Document process) \<and>
          map_of process ''memory'' = Some (Document memory) \<and>
          map_of memory ''resident_set_size_bytes'' = Some (Number f) \<and>
          map_of data ''cluster_uuid'' = Some (String cluster_uuid) \<longrightarrow>
          (\<exists>ev. eventMappingXPack env r intervalMs content =
                  (r\<lparr>events := events r @ [ev]\<rparr>, Returned None) \<and>
                GetValue ''kibana_stats.process.memory.resident_set_size_in_bytes''
                  (RootFields ev) = Some (FInt (float64_to_int64 f))))"
  using sint_float64_to_int64 [OF assms] event_patched_field [of env content data key sch opts process memory f cluster_uuid r intervalMs]
  by auto

theorem int_coercion_witness:
  "fits_int64 (trunc (- (7 / 2))) \<and>
   coerce KInt (Number (- (7 / 2))) = Some (FInt (- 3)) \<and>
   sint (float64_to_int64 (- (7 / 2))) = - 3 \<and>
   coerce KInt (Number 42) = Some (FInt 42) \<and>
   (\<exists>ev. eventMappingXPack (sampleEnv (statsDoc (Some (String ''c1'')) (Some (Number 123))))
            r0 10000 [] = (r0\<lparr>events := events r0 @ [ev]\<rparr>, Returned None) \<and>
         GetValue ''kibana_stats.process.memory.resident_set_size_in_bytes'' (RootFields ev) =
           Some (FInt 123))"
proof -
  have f: "fits_int64 (trunc (- (7 / 2)))" "trunc (- (7 / 2)) = - 3"
    "float64_to_int64 (- (7 / 2)) = - 3"
    "fits_int64 (trunc 42)" "float64_to_int64 42 = 42"
    "fits_int64 (trunc 123)" "float64_to_int64 123 = 123"
    by (simp_all add: fits_int64_def trunc_def float64_to_int64_def)
  let ?heap = "Document [(''total_bytes'', Number 300), (''used_bytes'', Number 200),
                 (''size_limit'', Number 400)]"
  let ?memory = "[(''heap'', ?heap), (''resident_set_size_bytes'', Number 123)]"
  let ?process = "[(''event_loop_delay'', Number (3 / 2)), (''memory'', Document ?memory),
                   (''uptime_ms'', Number 6000)]"
  have m: "map_of ?process ''memory'' = Some (Document ?memory)"
    "map_of ?memory ''resident_set_size_bytes'' = Some (Number 123)"
    by simp_all
  show ?thesis
    using int_coercion [OF f(1)] int_coercion [OF f(4)]
      int_coercion [OF f(6), of "sampleEnv (statsDoc (Some (String ''c1'')) (Some (Number 123)))"
        "[]" "statsDoc (Some (String ''c1'')) (Some (Number 123))" "''requests''"
        "[(''disconnects'', c_Int ''disconnects'' [Optional]),
          (''total'', c_Int ''total'' [Optional])]" "[]" ?process ?memory "''c1''" r0 10000]
      sample_stats_hyps m f
    by simp
qed

text \<open>
  Claim C6 as stated ("for every Number value") fails at 2 ^ 63, which a JSON payload
  can carry: the leaf and the patch both yield a 64-bit integer, and that integer is not
  the truncation.
\<close>

theorem int_coercion_counterexample:
  "coerce KInt (Number (2 ^ 63)) = Some (FInt (float64_to_int64 (2 ^ 63))) \<and>
   map (GetValue ''kibana_stats.process.memory.resident_set_size_in_bytes'' \<circ> RootFields)
     (events (fst (eventMappingXPack
        (sampleEnv (statsDoc (Some (String ''c1'')) (Some (Number (2 ^ 63))))) r0 10000 []))) =
     [Some (FInt (float64_to_int64 (2 ^ 63)))] \<and>
   sint (float64_to_int64 (2 ^ 63)) \<noteq> trunc (2 ^ 63)"
  by (simp add: event_defs sample_defs apply_defs schema_defs GetValue_def Let_def update_conv')

text \<open>
  Claim C7. A nested node at source key \<^verbatim>\<open>"a.b"\<close> that maps to \<^verbatim>\<open>"x"\<close> (by its
  field name, or by its target path) and holds a required integer leaf \<^verbatim>\<open>c\<close>:
  applied to \<^verbatim>\<open>{"a":{"b":{"c":5}}}\<close> it yields \<^verbatim>\<open>{"x":{"c":5}}\<close> and no error;
  applied to \<^verbatim>\<open>{"a":{}}\<close> it yields the empty document, with no error when the node
  is optional and with the single error \<open>MissingField "a.b"\<close> when it is required. The
  monitoring schema uses such keys: its entry \<^verbatim>\<open>"index_pattern"\<close> reads
  \<^verbatim>\<open>"kibana.index_pattern"\<close> below \<^verbatim>\<open>usage\<close>.
\<close>

theorem nested_flattening:
  "ApplyTo [(''x'', Nested ''a.b'' [] [(''c'', Leaf ''c'' [] KInt False)] False)]
       [(''a'', Document [(''b'', Document [(''c'', Number 5)])])]
     = ([(''x'', FMap [(''c'', FInt 5)])], []) \<and>
   ApplyTo [(''x'', Nested ''a.b'' [] [(''c'', Leaf ''c'' [] KInt False)] True)]
       [(''a'', Document [(''b'', Document [(''c'', Number 5)])])]
     = ([(''x'', FMap [(''c'', FInt 5)])], []) \<and>
   ApplyTo [(''n'', Nested ''a.b'' ''x'' [(''c'', Leaf ''c'' [] KInt False)] False)]
       [(''a'', Document [(''b'', Document [(''c'', Number 5)])])]
     = ([(''x'', FMap [(''c'', FInt 5)])], []) \<and>
   ApplyTo [(''x'', Nested ''a.b'' [] [(''c'', Leaf ''c'' [] KInt False)] True)]
       [(''a'', Document [])]
     = ([], []) \<and>
   ApplyTo [(''x'', Nested ''a.b'' [] [(''c'', Leaf ''c'' [] KInt False)] False)]
       [(''a'', Document [])]
     = ([], [FieldError ''a.b'' MissingField]) \<and>
   GetValue ''usage.index_pattern.total''
       (fst (ApplyTo (schemaXPackMonitoring requestsDictSample)
               (statsDoc (Some (String ''c1'')) (Some (Number 123)))))
     = Some (FInt 5)"
  by (simp add: apply_defs schema_defs statsDoc_def requestsDictSample_def GetValue_def)

text \<open>
  Claim C8, as amended. The source writes the schema as a Go map literal, and a run
  visits the entries of every map of the schema in an order of its own. For a schema built
  by the constructors of the file (no target paths, distinct field names;
  \<^verbatim>\<open>schemaXPackMonitoring\<close> is one when \<^verbatim>\<open>RequestsDict\<close> is) and an input taken as a
  map, two applications yield the same output document, key by key at every depth, and
  the same errors, each as often, so that one reports an error exactly when the other
  does; two applications that visit the schema in the same order also yield the same
  ordered error list. The order of the error list is not determined.
\<close>

theorem apply_determinism:
  assumes "plainSchema schema" and "value_equiv (Document d) (Document d')"
  shows "field_equiv (FMap (fst (ApplyTo (reorder rk [] schema) d)))
           (FMap (fst (ApplyTo (reorder rk' [] schema) d'))) \<and>
         mset (snd (ApplyTo (reorder rk [] schema) d)) =
           mset (snd (ApplyTo (reorder rk' [] schema) d')) \<and>
         (snd (Apply (reorder rk [] schema) d) = None) =
           (snd (Apply (reorder rk' [] schema) d') = None) \<and>
         ApplyTo (reorder rk [] schema) d = ApplyTo (reorder rk [] schema) d' \<and>
         (plainNode rd \<longrightarrow> plainSchema (schemaXPackMonitoring rd))"
proof -
  have same: "ApplyTo s d = ApplyTo s d'" for s
    using apply_order_insensitive(2) [OF assms(2), of s "([], [])"] by (simp add: ApplyTo_def)
  have inv: "mset (snd (ApplyTo (reorder rk [] schema) d)) =
           mset (snd (ApplyTo (reorder rk' [] schema) d'))"
    "field_equiv (FMap (fst (ApplyTo (reorder rk [] schema) d)))
           (FMap (fst (ApplyTo (reorder rk' [] schema) d')))"
    using apply_range_order [OF assms(1), of rk d rk'] same [of "reorder rk' [] schema"]
    by simp_all
  from inv(1) have "(snd (ApplyTo (reorder rk [] schema) d) = []) =
      (snd (ApplyTo (reorder rk' [] schema) d') = [])"
    by (metis mset_zero_iff)
  then have "(snd (Apply (reorder rk [] schema) d) = None) =
           (snd (Apply (reorder rk' [] schema) d') = None)"
    by (simp add: Apply_None_iff)
  then show ?thesis
    using inv same [of "reorder rk [] schema"] plain_schemaXPackMonitoring [of rd] by simp
qed

theorem apply_determinism_witness:
  "plainSchema (schemaXPackMonitoring requestsDictSample) \<and>
   value_equiv (Document (statsDoc (Some (String ''c1'')) (Some (Number 123))))
     (Document (rev (statsDoc (Some (String ''c1'')) (Some (Number 123))))) \<and>
   field_equiv
     (FMap (fst (ApplyTo (reorder listedOrder [] (schemaXPackMonitoring requestsDictSample))
        (statsDoc (Some (String ''c1'')) (Some (Number 123))))))
     (FMap (fst (ApplyTo (reorder byLength [] (schemaXPackMonitoring requestsDictSample))
        (rev (statsDoc (Some (String ''c1'')) (Some (Number 123))))))) \<and>
   map fst (fst (ApplyTo (reorder listedOrder [] (schemaXPackMonitoring requestsDictSample))
        (statsDoc (Some (String ''c1'')) (Some (Number 123))))) =
     [''concurrent_connections'', ''os'', ''process'', ''requests'', ''kibana'', ''usage''] \<and>
   map fst (fst (ApplyTo (reorder byLength [] (schemaXPackMonitoring requestsDictSample))
        (statsDoc (Some (String ''c1'')) (Some (Number 123))))) =
     [''os'', ''usage'', ''kibana'', ''process'', ''requests'', ''concurrent_connections''] \<and>
   value_equiv (Document claimDoc) (Document (rev claimDoc)) \<and>
   mset (snd (ApplyTo (reorder listedOrder [] (schemaXPackMonitoring requestsDictSample)) claimDoc)) =
   mset (snd (ApplyTo (reorder byLength [] (schemaXPackMonitoring requestsDictSample))
     (rev claimDoc)))"
proof -
  let ?S = "schemaXPackMonitoring requestsDictSample"
  let ?X = "statsDoc (Some (String ''c1'')) (Some (Number 123))"
  have pl: "plainSchema ?S"
    by (simp add: plainSchema_def schema_defs requestsDictSample_def)
  have e: "value_equiv (Document ?X) (Document (rev ?X))"
    "value_equiv (Document claimDoc) (Document (rev claimDoc))"
    by (simp_all add: statsDoc_def claimDoc_def)
  have k1: "map fst (fst (ApplyTo (reorder listedOrder [] ?S) ?X)) =
     [''concurrent_connections'', ''os'', ''process'', ''requests'', ''kibana'', ''usage'']"
    by (simp add: reorder_listed apply_defs schema_defs statsDoc_def requestsDictSample_def)
  have k2: "map fst (fst (ApplyTo (reorder byLength [] ?S) ?X)) =
     [''os'', ''usage'', ''kibana'', ''process'', ''requests'', ''concurrent_connections'']"
    by (simp add: reorder_def byLength_def apply_defs schema_defs statsDoc_def
        requestsDictSample_def)
  have f: "field_equiv (FMap (fst (ApplyTo (reorder listedOrder [] ?S) ?X)))
     (FMap (fst (ApplyTo (reorder byLength [] ?S) (rev ?X))))"
    using apply_determinism [OF pl e(1), where rk = listedOrder and rk' = byLength]
    by (rule conjunct1)
  have m: "mset (snd (ApplyTo (reorder listedOrder [] ?S) claimDoc)) =
     mset (snd (ApplyTo (reorder byLength [] ?S) (rev claimDoc)))"
    using apply_determinism [OF pl e(2), where rk = listedOrder and rk' = byLength]
    by (rule conjunct2 [THEN conjunct1])
  from pl e(1) f k1 k2 e(2) m show ?thesis
    by (intro conjI)
qed

text \<open>
  Claim C8 as stated fails in the order of the errors: the monitoring schema applied
  twice to the document of the end-to-end scenario, once visiting the maps as listed and
  once visiting shorter field names first, gives two different error lists, and the
  event mapping returns two different errors.
\<close>

theorem apply_determinism_counterexample:
  "snd (ApplyTo (reorder listedOrder [] (schemaXPackMonitoring requestsDictSample)) claimDoc) =
     [FieldError ''concurrent_connections'' MissingField,
      FieldError ''os'' MissingField,
      FieldError ''process.event_loop_delay'' MissingField,
      FieldError ''process.memory.heap'' MissingField,
      FieldError ''process.uptime_ms'' MissingField,
      FieldError ''requests'' MissingField,
      FieldError ''kibana'' MissingField,
      FieldError ''usage'' MissingField] \<and>
   snd (ApplyTo (reorder byLength [] (schemaXPackMonitoring requestsDictSample)) claimDoc) =
     [FieldError ''os'' MissingField,
      FieldError ''usage'' MissingField,
      FieldError ''kibana'' MissingField,
      FieldError ''process.memory.heap'' MissingField,
      FieldError ''process.event_loop_delay'' MissingField,
      FieldError ''process.uptime_ms'' MissingField,
      FieldError ''requests'' MissingField,
      FieldError ''concurrent_connections'' MissingField] \<and>
   snd (eventMappingXPack (sampleEnv claimDoc) r0 10000 []) \<noteq>
   snd (eventMappingXPack ((sampleEnv claimDoc)\<lparr>rangeOrder := byLength\<rparr>) r0 10000 [])"
proof -
  let ?S = "schemaXPackMonitoring requestsDictSample"
  have a: "snd (ApplyTo (reorder listedOrder [] ?S) claimDoc) =
     [FieldError ''concurrent_connections'' MissingField,
      FieldError ''os'' MissingField,
      FieldError ''process.event_loop_delay'' MissingField,
      FieldError ''process.memory.heap'' MissingField,
      FieldError ''process.uptime_ms'' MissingField,
      FieldError ''requests'' MissingField,
      FieldError ''kibana'' MissingField,
      FieldError ''usage'' MissingField]"
    by (simp add: reorder_listed apply_defs schema_defs claimDoc_def requestsDictSample_def)
  have b: "snd (ApplyTo (reorder byLength [] ?S) claimDoc) =
     [FieldError ''os'' MissingField,
      FieldError ''usage'' MissingField,
      FieldError ''kibana'' MissingField,
      FieldError ''process.memory.heap'' MissingField,
      FieldError ''process.event_loop_delay'' MissingField,
      FieldError ''process.uptime_ms'' MissingField,
      FieldError ''requests'' MissingField,
      FieldError ''concurrent_connections'' MissingField]"
    by (simp add: reorder_def byLength_def apply_defs schema_defs claimDoc_def
        requestsDictSample_def)
  have c: "snd (eventMappingXPack (sampleEnv claimDoc) r0 10000 []) =
      Returned (Some (AggregateError (snd (ApplyTo (reorder listedOrder [] ?S) claimDoc))))"
    by (simp add: a) (simp add: event_defs sample_defs apply_defs schema_defs)
  have d: "snd (eventMappingXPack ((sampleEnv claimDoc)\<lparr>rangeOrder := byLength\<rparr>) r0 10000 []) =
      Returned (Some (AggregateError (snd (ApplyTo (reorder byLength [] ?S) claimDoc))))"
    by (simp add: b)
       (simp add: eventMappingXPack_def r_Error_def rangedSchema_def sampleEnv_def
          reorder_def byLength_def apply_defs schema_defs claimDoc_def requestsDictSample_def)
  show ?thesis
    unfolding c d by (simp add: a b)
qed

text \<open>
  Claim C9. An input that decodes, passes the schema and holds the number under
  \<^verbatim>\<open>process.memory.resident_set_size_bytes\<close>, but whose \<^verbatim>\<open>cluster_uuid\<close> is absent
  or not a string, makes the function panic: it returns no error and the reporter has
  received neither an event nor an error.
\<close>

theorem unchecked_cluster_uuid_panics:
  assumes "json_Unmarshal env content = Inr data"
    and "snd (Apply (rangedSchema env) data) = None"
    and "map_of data ''process'' = Some (Document process)"
    and "map_of process ''memory'' = Some (Document memory)"
    and "map_of memory ''resident_set_size_bytes'' = Some (Number rss)"
    and "\<forall>c. map_of data ''cluster_uuid'' \<noteq> Some (String c)"
  shows "eventMappingXPack env r intervalMs content = (r, Panicked)"
proof -
  obtain out where "Apply (rangedSchema env) data = (out, None)"
    using assms(2) by (cases "Apply (rangedSchema env) data") simp
  then show ?thesis
    using assms
    by (simp add: eventMappingXPack_def Let_def split: option.splits Value.splits)
qed

theorem unchecked_cluster_uuid_panics_witness:
  "json_Unmarshal (sampleEnv (statsDoc None (Some (Number 123)))) [] =
     Inr (statsDoc None (Some (Number 123))) \<and>
   snd (Apply (rangedSchema (sampleEnv (statsDoc None (Some (Number 123)))))
          (statsDoc None (Some (Number 123)))) = None \<and>
   map_of (statsDoc None (Some (Number 123))) ''cluster_uuid'' = None \<and>
   eventMappingXPack (sampleEnv (statsDoc None (Some (Number 123)))) r0 10000 [] = (r0, Panicked) \<and>
   map_of (statsDoc (Some (Number 7)) (Some (Number 123))) ''cluster_uuid'' = Some (Number 7) \<and>
   eventMappingXPack (sampleEnv (statsDoc (Some (Number 7)) (Some (Number 123)))) r0 10000 [] =
     (r0, Panicked)"
proof -
  let ?d = "statsDoc None (Some (Number 123))"
  let ?d' = "statsDoc (Some (Number 7)) (Some (Number 123))"
  let ?heap = "Document [(''total_bytes'', Number 300), (''used_bytes'', Number 200),
                 (''size_limit'', Number 400)]"
  let ?memory = "[(''heap'', ?heap), (''resident_set_size_bytes'', Number 123)]"
  let ?process = "[(''event_loop_delay'', Number (3 / 2)), (''memory'', Document ?memory),
                   (''uptime_ms'', Number 6000)]"
  have h: "json_Unmarshal (sampleEnv ?d) [] = Inr ?d"
    "snd (Apply (rangedSchema (sampleEnv ?d)) ?d) = None"
    "map_of ?d ''process'' = Some (Document ?process)"
    "map_of ?process ''memory'' = Some (Document ?memory)"
    "map_of ?memory ''resident_set_size_bytes'' = Some (Number 123)"
    "\<forall>c. map_of ?d ''cluster_uuid'' \<noteq> Some (String c)"
    "map_of ?d ''cluster_uuid'' = None"
    by (simp_all add: sample_defs apply_defs schema_defs)
  have h': "json_Unmarshal (sampleEnv ?d') [] = Inr ?d'"
    "snd (Apply (rangedSchema (sampleEnv ?d')) ?d') = None"
    "map_of ?d' ''process'' = Some (Document ?process)"
    "\<forall>c. map_of ?d' ''cluster_uuid'' \<noteq> Some (String c)"
    "map_of ?d' ''cluster_uuid'' = Some (Number 7)"
    by (simp_all add: sample_defs apply_defs schema_defs)
  show ?thesis
    using unchecked_cluster_uuid_panics [OF h(1-6), of r0 10000]
      unchecked_cluster_uuid_panics [OF h'(1-3) h(4,5) h'(4), of r0 10000] h(1,2,7) h'(5)
    by simp
qed

text \<open>
  Claim C10. A value that is present under \<^verbatim>\<open>process.memory.resident_set_size_bytes\<close>
  but is not a number is reported as the missing field
  \<^verbatim>\<open>process.memory.resident_set_size_bytes\<close>, exactly as an absent key is.
\<close>

theorem non_number_rss_is_missing_field:
  assumes "json_Unmarshal env content = Inr data"
    and "snd (Apply (rangedSchema env) data) = None"
    and "map_of data ''process'' = Some (Document process)"
    and "map_of process ''memory'' = Some (Document memory)"
    and "map_of memory ''resident_set_size_bytes'' = Some v"
    and "\<forall>f. v \<noteq> Number f"
  shows "eventMappingXPack env r intervalMs content =
     (r\<lparr>errors := errors r @
          [MissingFieldError ''process.memory.resident_set_size_bytes'' Kibana]\<rparr>,
      Returned (Some (MissingFieldError ''process.memory.resident_set_size_bytes'' Kibana)))"
proof -
  obtain out where "Apply (rangedSchema env) data = (out, None)"
    using assms(2) by (cases "Apply (rangedSchema env) data") simp
  then show ?thesis
    using assms
    by (cases v) (simp_all add: eventMappingXPack_def r_Error_def ReportErrorForMissingField_def Let_def)
qed

theorem non_number_rss_is_missing_field_witness:
  "map_of [(''heap'', Document [(''total_bytes'', Number 300), (''used_bytes'', Number 200),
                 (''size_limit'', Number 400)]), (''resident_set_size_bytes'', String ''123'')]
      ''resident_set_size_bytes'' = Some (String ''123'') \<and>
   snd (Apply (rangedSchema (sampleEnv (statsDoc (Some (String ''c1'')) (Some (String ''123'')))))
          (statsDoc (Some (String ''c1'')) (Some (String ''123'')))) = None \<and>
   eventMappingXPack (sampleEnv (statsDoc (Some (String ''c1'')) (Some (String ''123'')))) r0 10000 [] =
     (r0\<lparr>errors := [MissingFieldError ''process.memory.resident_set_size_bytes'' Kibana]\<rparr>,
      Returned (Some (MissingFieldError ''process.memory.resident_set_size_bytes'' Kibana))) \<and>
   eventMappingXPack (sampleEnv (statsDoc (Some (String ''c1'')) (Some (String ''123'')))) r0 10000 [] =
     eventMappingXPack (sampleEnv (statsDoc (Some (String ''c1'')) None)) r0 10000 []"
proof -
  let ?d = "statsDoc (Some (String ''c1'')) (Some (String ''123''))"
  let ?heap = "Document [(''total_bytes'', Number 300), (''used_bytes'', Number 200),
                 (''size_limit'', Number 400)]"
  let ?memory = "[(''heap'', ?heap), (''resident_set_size_bytes'', String ''123'')]"
  let ?process = "[(''event_loop_delay'', Number (3 / 2)), (''memory'', Document ?memory),
                   (''uptime_ms'', Number 6000)]"
  have h: "json_Unmarshal (sampleEnv ?d) [] = Inr ?d"
    "snd (Apply (rangedSchema (sampleEnv ?d)) ?d) = None"
    "map_of ?d ''process'' = Some (Document ?process)"
    "map_of ?process ''memory'' = Some (Document ?memory)"
    "map_of ?memory ''resident_set_size_bytes'' = Some (String ''123'')"
    "\<forall>f. String ''123'' \<noteq> Number f"
    by (simp_all add: sample_defs apply_defs schema_defs)
  have absent: "eventMappingXPack (sampleEnv (statsDoc (Some (String ''c1'')) None)) r0 10000 [] =
     (r0\<lparr>errors := [MissingFieldError ''process.memory.resident_set_size_bytes'' Kibana]\<rparr>,
      Returned (Some (MissingFieldError ''process.memory.resident_set_size_bytes'' Kibana)))"
    by (simp add: event_defs sample_defs apply_defs schema_defs)
  show ?thesis
    using non_number_rss_is_missing_field [OF h, of r0 10000] h(2,5) absent
    by (simp add: r0_def)
qed

end
